theory Spec2Isabelle
  imports Complex_Main
begin

section \<open>A model of Cubefile.py\<close>

text \<open>
  The module \<^verbatim>\<open>Cubefile.py\<close> holds one class, \<^verbatim>\<open>Cubefile\<close>, which reads a
  Gaussian cube file from a path, a text or an iterator of lines. The model below follows
  the class method by method. An object is a record of its eight attributes, every
  method takes the record and returns the record it leaves behind, together with either
  the value returned or the exception raised.

  Conventions of the model:
  \<^item> a Python \<^verbatim>\<open>str\<close> is a \<open>string\<close>; its characters are read as the code points
    0 to 255, larger code points are not represented;
  \<^item> a \<^verbatim>\<open>numpy.float64\<close> is a value of \<open>float64\<close>: a real number, one of the two
    infinities, or NaN; the two zeros are one value. A decimal that is read overflows to
    an infinity and underflows to zero where binary64 does; the rounding of a decimal
    inside the range to 53 bits is not modelled, and the arithmetic on finite values is
    exact (no rounding, overflow or underflow of a sum, a product or a root);
  \<^item> a one-dimensional array is a list, a two-dimensional array the list of its rows,
    and the voxel grid, whose number of dimensions changes, is a shape with the flat
    buffer of its elements in C order;
  \<^item> an iterator of lines is the finite list of the lines it still has to yield;
  \<^item> the file system is a function \<open>fs\<close>: \<open>fs p = Some text\<close> when
    \<^verbatim>\<open>os.path.isfile(p)\<close> holds and \<^verbatim>\<open>open(p, "rt")\<close> yields the text, and \<open>None\<close>
    when \<^verbatim>\<open>isfile\<close> is false or it, or \<^verbatim>\<open>open\<close>, raises;
  \<^item> memory is unbounded, and the limits of numpy on the size of an array are not
    modelled.
\<close>

subsection \<open>Python values, exceptions\<close>

text \<open>The values that may be passed as \<^verbatim>\<open>data_source\<close> (typed \<^verbatim>\<open>Any\<close>): \<^verbatim>\<open>None\<close>, an
  \<^verbatim>\<open>int\<close>, a \<^verbatim>\<open>str\<close>, a list of lines, an iterator object over lines, and any other
  object, which is not iterable (a \<^verbatim>\<open>pathlib.Path\<close>, a \<^verbatim>\<open>float\<close>), told apart by a
  number and given with its truth value (\<^verbatim>\<open>0.0\<close> is false).\<close>

datatype pyval =
    PNone
  | PInt int
  | PStr string
  | PList "string list"
  | PIter "string list"
  | PObj nat bool

text \<open>The truth value \<^verbatim>\<open>if data_source:\<close> tests. An iterator object is true whatever
  it holds.\<close>

fun truthy :: "pyval \<Rightarrow> bool" where
  "truthy PNone = False"
| "truthy (PInt n) = (n \<noteq> 0)"
| "truthy (PStr s) = (s \<noteq> [])"
| "truthy (PList ls) = (ls \<noteq> [])"
| "truthy (PIter ls) = True"
| "truthy (PObj k b) = b"

text \<open>\<^verbatim>\<open>iter(data_source)\<close>: a \<^verbatim>\<open>TypeError\<close> (here \<open>None\<close>) for what is not iterable. A
  \<^verbatim>\<open>str\<close> never reaches this call in \<^verbatim>\<open>read\<close>; iterating it would yield its
  characters.\<close>

fun py_iter :: "pyval \<Rightarrow> string list option" where
  "py_iter (PList ls) = Some ls"
| "py_iter (PIter ls) = Some ls"
| "py_iter (PStr s) = Some (map (\<lambda>c. [c]) s)"
| "py_iter PNone = None"
| "py_iter (PInt n) = None"
| "py_iter (PObj k b) = None"

text \<open>\<^verbatim>\<open>isinstance(data_source, str)\<close>.\<close>

fun is_str :: "pyval \<Rightarrow> bool" where
  "is_str (PStr s) = True"
| "is_str v = False"

text \<open>An exception has a class, its \<^verbatim>\<open>args\<close> and the exception that was being handled
  when it was raised (\<^verbatim>\<open>__context__\<close>). An argument is a text of the source, the value
  passed to \<^verbatim>\<open>read\<close>, or a message of the Python runtime or of numpy, kept as the kind of
  message with its variable parts.\<close>

datatype exc_class = StopIteration | IndexError | ValueError

datatype arg =
    Text string
  | Val pyval
  | InvalidInt string
  | InvalidFloat string
  | OutOfBounds nat nat
  | NoBroadcast nat nat
  | NoReshape nat "nat list"

datatype exc = Exc exc_class "arg list" "exc option"

fun exc_args :: "exc \<Rightarrow> arg list" where
  "exc_args (Exc c as ctx) = as"

text \<open>Sequencing of two computations that may raise.\<close>

definition seq :: "exc + 'a \<Rightarrow> ('a \<Rightarrow> exc + 'b) \<Rightarrow> exc + 'b" where
  "seq m f = (case m of Inl e \<Rightarrow> Inl e | Inr x \<Rightarrow> f x)"

fun mapM :: "('a \<Rightarrow> exc + 'b) \<Rightarrow> 'a list \<Rightarrow> exc + 'b list" where
  "mapM f [] = Inr []"
| "mapM f (x # xs) = seq (f x) (\<lambda>y. seq (mapM f xs) (\<lambda>ys. Inr (y # ys)))"

subsection \<open>Floating-point values\<close>

datatype float64 = Num real | PInf | NInf | NaN

definition is_negative :: "float64 \<Rightarrow> bool" where
  "is_negative x = (case x of Num a \<Rightarrow> a < 0 | NInf \<Rightarrow> True | _ \<Rightarrow> False)"

text \<open>The product: infinity times zero is NaN, NaN times anything is NaN.\<close>

definition fmul :: "float64 \<Rightarrow> float64 \<Rightarrow> float64" where
  "fmul x y =
     (case (x, y) of
        (Num a, Num b) \<Rightarrow> Num (a * b)
      | _ \<Rightarrow> if x = NaN \<or> y = NaN \<or> x = Num 0 \<or> y = Num 0 then NaN
             else if is_negative x = is_negative y then PInf else NInf)"

definition fadd :: "float64 \<Rightarrow> float64 \<Rightarrow> float64" where
  "fadd x y =
     (case (x, y) of
        (Num a, Num b) \<Rightarrow> Num (a + b)
      | _ \<Rightarrow> if x = NaN \<or> y = NaN \<or> (x = PInf \<and> y = NInf) \<or> (x = NInf \<and> y = PInf) then NaN
             else if x = PInf \<or> y = PInf then PInf else NInf)"

definition fsqrt :: "float64 \<Rightarrow> float64" where
  "fsqrt x = (case x of Num a \<Rightarrow> if a < 0 then NaN else Num (sqrt a) | PInf \<Rightarrow> PInf | _ \<Rightarrow> NaN)"

definition fabs :: "float64 \<Rightarrow> float64" where
  "fabs x = (case x of Num a \<Rightarrow> Num \<bar>a\<bar> | NInf \<Rightarrow> PInf | _ \<Rightarrow> x)"

text \<open>The maximum as \<^verbatim>\<open>numpy.maximum\<close> takes it: NaN wins.\<close>

definition fmax :: "float64 \<Rightarrow> float64 \<Rightarrow> float64" where
  "fmax x y =
     (case (x, y) of
        (Num a, Num b) \<Rightarrow> Num (max a b)
      | _ \<Rightarrow> if x = NaN \<or> y = NaN then NaN
             else if x = PInf \<or> y = PInf then PInf
             else if x = NInf then y else x)"

text \<open>The truth value of an element, as \<^verbatim>\<open>.any()\<close> reads it: everything but zero.\<close>

definition nonzero :: "float64 \<Rightarrow> bool" where
  "nonzero x = (x \<noteq> Num 0)"

definition BOHR_TO_ANGSTROM :: float64 where
  "BOHR_TO_ANGSTROM = Num (5.29177210903 / 10.0)"

subsection \<open>Text: \<^verbatim>\<open>str.split\<close>, \<^verbatim>\<open>str.splitlines\<close>, the lines of a file, \<^verbatim>\<open>re.findall\<close>\<close>

text \<open>White space as \<^verbatim>\<open>str.split()\<close> and the pattern \<^verbatim>\<open>\S\<close> on a \<^verbatim>\<open>str\<close> see it.\<close>

definition is_space :: "char \<Rightarrow> bool" where
  "is_space c = (c \<in> {CHR 0x09, CHR 0x0A, CHR 0x0B, CHR 0x0C, CHR 0x0D,
                       CHR 0x1C, CHR 0x1D, CHR 0x1E, CHR 0x1F, CHR 0x20, CHR 0x85, CHR 0xA0})"

fun split_from :: "string \<Rightarrow> string \<Rightarrow> string list" where
  "split_from cur [] = (if cur = [] then [] else [cur])"
| "split_from cur (c # cs) =
     (if is_space c then (if cur = [] then split_from [] cs else cur # split_from [] cs)
      else split_from (cur @ [c]) cs)"

text \<open>\<^verbatim>\<open>s.split()\<close>: the maximal runs of characters that are not white space.\<close>

definition py_split :: "string \<Rightarrow> string list" where
  "py_split s = split_from [] s"

text \<open>\<^verbatim>\<open>re.findall(r"\S+", s)\<close>: the same runs.\<close>

definition findall_nonspace :: "string \<Rightarrow> string list" where
  "findall_nonspace s = split_from [] s"

text \<open>The line boundaries of \<^verbatim>\<open>str.splitlines\<close>; a carriage return followed by a line
  feed is one boundary.\<close>

definition is_linebreak :: "char \<Rightarrow> bool" where
  "is_linebreak c = (c \<in> {CHR 0x0A, CHR 0x0B, CHR 0x0C, CHR 0x0D,
                           CHR 0x1C, CHR 0x1D, CHR 0x1E, CHR 0x85})"

fun splitlines_from :: "string \<Rightarrow> string \<Rightarrow> string list" where
  "splitlines_from cur [] = (if cur = [] then [] else [cur])"
| "splitlines_from cur [c] = (if is_linebreak c then [cur] else [cur @ [c]])"
| "splitlines_from cur (c # d # cs) =
     (if c = CHR 0x0D \<and> d = CHR 0x0A then cur # splitlines_from [] cs
      else if is_linebreak c then cur # splitlines_from [] (d # cs)
      else splitlines_from (cur @ [c]) (d # cs))"

text \<open>\<^verbatim>\<open>s.splitlines()\<close>: the lines without their terminators.\<close>

definition splitlines :: "string \<Rightarrow> string list" where
  "splitlines s = splitlines_from [] s"

fun file_lines_from :: "string \<Rightarrow> string \<Rightarrow> string list" where
  "file_lines_from cur [] = (if cur = [] then [] else [cur])"
| "file_lines_from cur (c # cs) =
     (if c = CHR 0x0A then (cur @ [c]) # file_lines_from [] cs
      else file_lines_from (cur @ [c]) cs)"

text \<open>Iterating a file opened in text mode: every line keeps its line feed.\<close>

definition file_lines :: "string \<Rightarrow> string list" where
  "file_lines s = file_lines_from [] s"

subsection \<open>Numbers from text: \<^verbatim>\<open>int\<close>, \<^verbatim>\<open>float\<close>\<close>

definition is_digit :: "char \<Rightarrow> bool" where
  "is_digit c = (c \<in> set ''0123456789'')"

definition digit_val :: "char \<Rightarrow> nat" where
  "digit_val c = of_char c - 48"

text \<open>After a first digit: more digits, each with at most one underscore before it.
  The result is the value read, the number of digits, and the text left.\<close>

fun scan_more :: "nat \<Rightarrow> nat \<Rightarrow> string \<Rightarrow> nat \<times> nat \<times> string" where
  "scan_more v k [] = (v, k, [])"
| "scan_more v k [c] = (if is_digit c then (10 * v + digit_val c, Suc k, []) else (v, k, [c]))"
| "scan_more v k (c # d # cs) =
     (if is_digit c then scan_more (10 * v + digit_val c) (Suc k) (d # cs)
      else if c = CHR ''_'' \<and> is_digit d then scan_more (10 * v + digit_val d) (Suc k) cs
      else (v, k, c # d # cs))"

definition scan_digitpart :: "string \<Rightarrow> (nat \<times> nat \<times> string) option" where
  "scan_digitpart s =
     (case s of
        [] \<Rightarrow> None
      | c # cs \<Rightarrow> if is_digit c then Some (scan_more (digit_val c) 1 cs) else None)"

text \<open>An optional sign: whether it is a minus, and the text after it.\<close>

definition scan_sign :: "string \<Rightarrow> bool \<times> string" where
  "scan_sign s =
     (case s of
        [] \<Rightarrow> (False, [])
      | c # cs \<Rightarrow> if c = CHR ''-'' then (True, cs) else if c = CHR ''+'' then (False, cs)
                  else (False, s))"

text \<open>\<^verbatim>\<open>int(tok)\<close> for a token without white space: a sign and decimal digits.\<close>

definition py_int :: "string \<Rightarrow> exc + int" where
  "py_int tok =
     (case scan_sign tok of
        (neg, body) \<Rightarrow>
          (case scan_digitpart body of
             Some (v, k, []) \<Rightarrow> Inr (if neg then - int v else int v)
           | _ \<Rightarrow> Inl (Exc ValueError [InvalidInt tok] None)))"

text \<open>A word read without regard to case.\<close>

definition ci_match :: "string \<Rightarrow> string \<Rightarrow> string \<Rightarrow> bool" where
  "ci_match lo up s =
     (length s = length lo \<and> list_all (\<lambda>(c, l, u). c = l \<or> c = u) (zip s (zip lo up)))"

text \<open>The digits of a number with an optional point: the digits read as one natural
  number, how many of them stood after the point, and the text left.\<close>

definition scan_mantissa :: "string \<Rightarrow> (nat \<times> nat \<times> string) option" where
  "scan_mantissa s =
     (case scan_digitpart s of
        Some (i, n, rest) \<Rightarrow>
          (case rest of
             c # rest' \<Rightarrow>
               if c = CHR ''.'' then
                 (case scan_digitpart rest' of
                    Some (f, k, rest'') \<Rightarrow> Some (i * 10 ^ k + f, k, rest'')
                  | None \<Rightarrow> Some (i, 0, rest'))
               else Some (i, 0, rest)
           | [] \<Rightarrow> Some (i, 0, []))
      | None \<Rightarrow>
          (case s of
             c # rest' \<Rightarrow>
               if c = CHR ''.'' then
                 (case scan_digitpart rest' of
                    Some (f, k, rest'') \<Rightarrow> Some (f, k, rest'')
                  | None \<Rightarrow> None)
               else None
           | [] \<Rightarrow> None))"

text \<open>The exponent: nothing, or \<^verbatim>\<open>e\<close>, a sign and digits up to the end of the token.\<close>

definition scan_exponent :: "string \<Rightarrow> int option" where
  "scan_exponent s =
     (case s of
        [] \<Rightarrow> Some 0
      | c # cs \<Rightarrow>
          if c = CHR ''e'' \<or> c = CHR ''E'' then
            (case scan_sign cs of
               (neg, body) \<Rightarrow>
                 (case scan_digitpart body of
                    Some (v, k, []) \<Rightarrow> Some (if neg then - int v else int v)
                  | _ \<Rightarrow> None))
          else None)"

text \<open>The binary64 nearest to an exact decimal, as far as it is modelled. From
  \<^verbatim>\<open>2**1024 - 2**970\<close> on, half way between the greatest finite value and
  \<^verbatim>\<open>2**1024\<close>, a magnitude rounds to infinity; up to \<^verbatim>\<open>2**-1075\<close>, half of the
  least positive value, it rounds to zero (both ties go to the even neighbour); between
  them the decimal is kept as it is.\<close>

definition to_float64 :: "real \<Rightarrow> float64" where
  "to_float64 x =
     (if 2 ^ 1024 - 2 ^ 970 \<le> \<bar>x\<bar> then (if x < 0 then NInf else PInf)
      else if \<bar>x\<bar> \<le> 1 / 2 ^ 1075 then Num 0
      else Num x)"

text \<open>\<^verbatim>\<open>float(tok)\<close> for a token without white space: an optional sign, then
  \<^verbatim>\<open>inf\<close>, \<^verbatim>\<open>infinity\<close> or \<^verbatim>\<open>nan\<close> in any case, or digits with an optional point and
  an optional exponent. The conversion of a \<^verbatim>\<open>str\<close> to \<^verbatim>\<open>float64\<close> by
  \<^verbatim>\<open>numpy.asarray\<close> is taken to read the same texts.\<close>

definition py_float :: "string \<Rightarrow> exc + float64" where
  "py_float tok =
     (case scan_sign tok of
        (neg, body) \<Rightarrow>
          if ci_match ''inf'' ''INF'' body \<or> ci_match ''infinity'' ''INFINITY'' body
          then Inr (if neg then NInf else PInf)
          else if ci_match ''nan'' ''NAN'' body then Inr NaN
          else
            (case scan_mantissa body of
               None \<Rightarrow> Inl (Exc ValueError [InvalidFloat tok] None)
             | Some (m, k, rest) \<Rightarrow>
                 (case scan_exponent rest of
                    None \<Rightarrow> Inl (Exc ValueError [InvalidFloat tok] None)
                  | Some e \<Rightarrow>
                      Inr (to_float64 ((if neg then - 1 else 1) * real m
                                 * (if 0 \<le> e then 10 ^ nat e else 1 / 10 ^ nat (- e))
                                 / 10 ^ k)))))"

subsection \<open>Lists and arrays\<close>

text \<open>\<^verbatim>\<open>xs[i]\<close> on a Python list.\<close>

definition getitem :: "'a list \<Rightarrow> nat \<Rightarrow> exc + 'a" where
  "getitem xs i =
     (if i < length xs then Inr (xs ! i)
      else Inl (Exc IndexError [Text ''list index out of range''] None))"

text \<open>\<^verbatim>\<open>xs[a:b]\<close>: a slice never raises.\<close>

definition slice :: "nat \<Rightarrow> nat \<Rightarrow> 'a list \<Rightarrow> 'a list" where
  "slice a b xs = take (b - a) (drop a xs)"

text \<open>\<^verbatim>\<open>arr[i] = v\<close> on a one-dimensional array.\<close>

definition setitem :: "'a list \<Rightarrow> nat \<Rightarrow> 'a \<Rightarrow> exc + 'a list" where
  "setitem xs i v =
     (if i < length xs then Inr (xs[i := v])
      else Inl (Exc IndexError [OutOfBounds i (length xs)] None))"

text \<open>A one-dimensional array stretched to a length by numpy's broadcasting: it has
  that length already, or it has one element, which is repeated.\<close>

definition broadcast_to :: "nat \<Rightarrow> 'a list \<Rightarrow> exc + 'a list" where
  "broadcast_to n xs =
     (if length xs = n then Inr xs
      else if length xs = 1 then Inr (replicate n (hd xs))
      else Inl (Exc ValueError [NoBroadcast (length xs) n] None))"

text \<open>\<^verbatim>\<open>m[i] = row\<close> on a two-dimensional array: the row is broadcast to the width.\<close>

definition set_row :: "'a list list \<Rightarrow> nat \<Rightarrow> 'a list \<Rightarrow> exc + 'a list list" where
  "set_row m i row =
     (if i < length m then seq (broadcast_to (length (m ! i)) row) (\<lambda>row'. Inr (m[i := row']))
      else Inl (Exc IndexError [OutOfBounds i (length m)] None))"

text \<open>\<^verbatim>\<open>numpy.multiply\<close> of two one-dimensional arrays.\<close>

definition np_multiply :: "float64 list \<Rightarrow> float64 list \<Rightarrow> exc + float64 list" where
  "np_multiply xs ys =
     (if length xs = length ys then Inr (map2 fmul xs ys)
      else if length xs = 1 then Inr (map (fmul (hd xs)) ys)
      else if length ys = 1 then Inr (map (\<lambda>x. fmul x (hd ys)) xs)
      else Inl (Exc ValueError [NoBroadcast (length xs) (length ys)] None))"

text \<open>\<^verbatim>\<open>1.0 - numpy.identity(3)\<close>.\<close>

definition identity3 :: "float64 list list" where
  "identity3 = [[Num 1, Num 0, Num 0], [Num 0, Num 1, Num 0], [Num 0, Num 0, Num 1]]"

definition off_diagonal_mask :: "float64 list list" where
  "off_diagonal_mask = map (map (\<lambda>x. fadd (Num 1) (fmul (Num (- 1)) x))) identity3"

text \<open>\<^verbatim>\<open>numpy.multiply(m, 1.0 - numpy.identity(3)).any()\<close>: the two-dimensional \<open>m\<close> is
  broadcast against the shape (3, 3), multiplied element by element, and the result is
  true when one product is not zero.\<close>

definition off_diagonal_any :: "float64 list list \<Rightarrow> exc + bool" where
  "off_diagonal_any m =
     seq (broadcast_to 3 m) (\<lambda>rows.
     seq (mapM (broadcast_to 3) rows) (\<lambda>m3.
     Inr (list_ex (list_ex nonzero) (map2 (map2 fmul) m3 off_diagonal_mask))))"

text \<open>\<^verbatim>\<open>numpy.linalg.norm(m, axis=1)\<close>: the root of the sum of the squares of each row.\<close>

definition norm_axis1 :: "float64 list list \<Rightarrow> float64 list" where
  "norm_axis1 m = map (\<lambda>row. fsqrt (foldl fadd (Num 0) (map (\<lambda>x. fmul x x) row))) m"

record ndarray =
  shape :: "nat list"
  data :: "float64 list"

text \<open>\<^verbatim>\<open>numpy.zeros(shape)\<close>.\<close>

definition np_zeros :: "nat list \<Rightarrow> ndarray" where
  "np_zeros shp = \<lparr>shape = shp, data = replicate (prod_list shp) (Num 0)\<rparr>"

text \<open>\<^verbatim>\<open>numpy.asarray(toks, dtype=float_type, order="C")\<close> on a list of \<^verbatim>\<open>str\<close>.\<close>

definition asarray_float :: "string list \<Rightarrow> exc + float64 list" where
  "asarray_float toks = mapM py_float toks"

text \<open>\<^verbatim>\<open>arr.reshape(shp)\<close> of a one-dimensional array: the buffer is kept, in C order.\<close>

definition np_reshape :: "float64 list \<Rightarrow> nat list \<Rightarrow> exc + ndarray" where
  "np_reshape arr shp =
     (if length arr = prod_list shp then Inr \<lparr>shape = shp, data = arr\<rparr>
      else Inl (Exc ValueError [NoReshape (length arr) shp] None))"

text \<open>The element at index \<open>(i, j, k)\<close> of a three-dimensional array in C order.\<close>

definition voxel_at :: "ndarray \<Rightarrow> nat \<Rightarrow> nat \<Rightarrow> nat \<Rightarrow> float64" where
  "voxel_at a i j k = data a ! ((i * (shape a ! 1) + j) * (shape a ! 2) + k)"

subsection \<open>The class \<^verbatim>\<open>Cubefile\<close>\<close>

record atom =
  element :: int
  charge :: float64
  xyz :: "float64 list"

record cubefile =
  filename :: pyval
  header :: string
  origin :: "float64 list"
  voxel_shape :: "float64 list list"
  unit_conversion :: "float64 list"
  scale :: "float64 list"
  atoms :: "atom list"
  voxels :: ndarray

text \<open>\<^verbatim>\<open>reset\<close> assigns every attribute, so the object it leaves does not depend on the
  object it was called on.\<close>

definition reset :: cubefile where
  "reset =
     \<lparr>filename = PNone,
      header = [],
      origin = [Num 0, Num 0, Num 0],
      voxel_shape = [[Num 1, Num 1, Num 1], [Num 1, Num 1, Num 1], [Num 1, Num 1, Num 1]],
      unit_conversion = [Num 1, Num 1, Num 1],
      scale = [Num 1, Num 1, Num 1],
      atoms = [],
      voxels = np_zeros [0]\<rparr>"

text \<open>The four properties.\<close>

definition voxel_count :: "cubefile \<Rightarrow> nat list" where
  "voxel_count r = shape (voxels r)"

definition voxel_total :: "cubefile \<Rightarrow> nat" where
  "voxel_total r = prod_list (shape (voxels r))"

definition atom_count :: "cubefile \<Rightarrow> nat" where
  "atom_count r = length (atoms r)"

text \<open>\<^verbatim>\<open>float(numpy.abs(self.voxels).max())\<close>: the maximum of an array without elements
  raises.\<close>

definition max_voxel_val :: "cubefile \<Rightarrow> exc + float64" where
  "max_voxel_val r =
     (case map fabs (data (voxels r)) of
        [] \<Rightarrow> Inl (Exc ValueError
                [Text ''zero-size array to reduction operation maximum which has no identity'']
                None)
      | x # xs \<Rightarrow> Inr (foldl fmax x xs))"

text \<open>\<^verbatim>\<open>next(iterator)\<close>.\<close>

definition next_line :: "string list \<Rightarrow> exc + (string \<times> string list)" where
  "next_line it = (case it of [] \<Rightarrow> Inl (Exc StopIteration [] None) | l # ls \<Rightarrow> Inr (l, ls))"

text \<open>A \<^verbatim>\<open>for\<close> loop over a list of indices, the state threaded through the body.\<close>

fun for_each :: "nat list \<Rightarrow> (nat \<Rightarrow> 's \<Rightarrow> exc + 's) \<Rightarrow> 's \<Rightarrow> exc + 's" where
  "for_each [] body s = Inr s"
| "for_each (i # is) body s = seq (body i s) (for_each is body)"

text \<open>\<^verbatim>\<open>read_iterator\<close>, lines 140 to 141: the two lines of the header.\<close>

definition read_header :: "string list \<Rightarrow> cubefile \<Rightarrow> exc + (string list \<times> cubefile)" where
  "read_header it r =
     seq (next_line it) (\<lambda>(l1, it1).
     seq (next_line it1) (\<lambda>(l2, it2).
     Inr (it2, r\<lparr>header := l1 @ l2\<rparr>)))"

text \<open>Lines 143 to 146: the number of atoms and the origin, not yet converted.\<close>

definition read_origin :: "string list \<Rightarrow> cubefile \<Rightarrow> exc + (string list \<times> cubefile \<times> int)" where
  "read_origin it r =
     seq (next_line it) (\<lambda>(l, it1).
     let split_line = py_split l in
     seq (getitem split_line 0) (\<lambda>t.
     seq (py_int t) (\<lambda>n.
     seq (mapM py_float (slice 1 4 split_line)) (\<lambda>org.
     Inr (it1, r\<lparr>origin := org\<rparr>, n)))))"

text \<open>Lines 151 to 159: one pass of the loop over the axes. The state is the iterator,
  the object and the local list \<^verbatim>\<open>voxel_count\<close>.\<close>

definition read_axis ::
  "nat \<Rightarrow> string list \<times> cubefile \<times> int list \<Rightarrow> exc + (string list \<times> cubefile \<times> int list)" where
  "read_axis i s =
     (case s of (it, r, vc) \<Rightarrow>
        seq (next_line it) (\<lambda>(l, it1).
        let split_line = py_split l in
        seq (getitem split_line 0) (\<lambda>t.
        seq (py_int t) (\<lambda>n.
        seq (if n < 0 then seq (setitem (unit_conversion r) i (Num 1)) (\<lambda>uc. Inr (vc[i := - n], uc))
             else seq (setitem (unit_conversion r) i BOHR_TO_ANGSTROM) (\<lambda>uc. Inr (vc[i := n], uc)))
          (\<lambda>(vc', uc).
        seq (asarray_float (slice 1 4 split_line)) (\<lambda>row.
        seq (set_row (voxel_shape r) i row) (\<lambda>vs.
        Inr (it1, r\<lparr>unit_conversion := uc, voxel_shape := vs\<rparr>, vc'))))))))"

text \<open>Lines 149 to 159: the loop over \<^verbatim>\<open>range(0, 3)\<close>.\<close>

definition read_axes ::
  "string list \<Rightarrow> cubefile \<Rightarrow> exc + (string list \<times> cubefile \<times> int list)" where
  "read_axes it r = for_each [0, 1, 2] read_axis (it, r, [0, 0, 0])"

text \<open>Lines 163 to 176: the check for voxels that are not square, the conversion of the
  origin, the empty grid and the scale.\<close>

definition setup_grid :: "cubefile \<Rightarrow> int list \<Rightarrow> exc + cubefile" where
  "setup_grid r vc =
     seq (off_diagonal_any (voxel_shape r)) (\<lambda>bad.
     if bad then Inl (Exc ValueError [Text ''Non square voxel shape.''] None)
     else
       seq (np_multiply (origin r) (unit_conversion r)) (\<lambda>org.
       let r1 = r\<lparr>origin := org\<rparr>;
           r2 = r1\<lparr>voxels := np_zeros (map nat vc)\<rparr> in
       seq (np_multiply (norm_axis1 (voxel_shape r2)) (unit_conversion r2)) (\<lambda>sc.
       Inr (r2\<lparr>scale := sc\<rparr>))))"

text \<open>Lines 182 to 189: the dictionary of one atom, from its line and the unit
  conversion.\<close>

definition parse_atom :: "float64 list \<Rightarrow> string \<Rightarrow> exc + atom" where
  "parse_atom uc l =
     (let split_line = py_split l in
      seq (getitem split_line 0) (\<lambda>t0.
      seq (py_int t0) (\<lambda>el.
      seq (getitem split_line 1) (\<lambda>t1.
      seq (py_float t1) (\<lambda>ch.
      seq (asarray_float (slice 2 5 split_line)) (\<lambda>pos.
      seq (np_multiply pos uc) (\<lambda>pos'.
      Inr \<lparr>element = el, charge = ch, xyz = pos'\<rparr>)))))))"

text \<open>Lines 180 to 190: one pass of the loop over the atoms.\<close>

definition read_atom :: "nat \<Rightarrow> string list \<times> cubefile \<Rightarrow> exc + (string list \<times> cubefile)" where
  "read_atom i s =
     (case s of (it, r) \<Rightarrow>
        seq (next_line it) (\<lambda>(l, it1).
        seq (parse_atom (unit_conversion r) l) (\<lambda>a.
        Inr (it1, r\<lparr>atoms := atoms r @ [a]\<rparr>))))"

text \<open>Lines 179 to 190: \<^verbatim>\<open>for _ in range(atom_count)\<close>, which runs no pass for a
  negative count.\<close>

definition read_atoms :: "int \<Rightarrow> string list \<Rightarrow> cubefile \<Rightarrow> exc + (string list \<times> cubefile)" where
  "read_atoms n it r = for_each [0 ..< nat n] read_atom (it, r)"

text \<open>Lines 193 to 199: the rest of the iterator, joined with nothing between the lines,
  is cut into tokens, which are read as numbers and put into the shape of the grid.\<close>

definition read_voxels :: "string list \<Rightarrow> cubefile \<Rightarrow> int list \<Rightarrow> exc + cubefile" where
  "read_voxels it r vc =
     seq (asarray_float (findall_nonspace (concat it))) (\<lambda>arr.
     seq (np_reshape arr (shape (voxels r))) (\<lambda>v.
     let r1 = r\<lparr>voxels := v\<rparr> in
     if \<not> shape (voxels r1) = map nat vc
     then Inl (Exc ValueError [Text ''Could not read the correct number of voxels''] None)
     else Inr r1))"

text \<open>The body of the \<^verbatim>\<open>try\<close> statement of \<^verbatim>\<open>read_iterator\<close>, lines 140 to 199.\<close>

definition read_body :: "string list \<Rightarrow> cubefile \<Rightarrow> exc + cubefile" where
  "read_body it r =
     seq (read_header it r) (\<lambda>(it1, r1).
     seq (read_origin it1 r1) (\<lambda>(it2, r2, n).
     seq (read_axes it2 r2) (\<lambda>(it3, r3, vc).
     seq (setup_grid r3 vc) (\<lambda>r4.
     seq (read_atoms n it3 r4) (\<lambda>(it5, r5).
     read_voxels it5 r5 vc)))))"

text \<open>\<^verbatim>\<open>read_iterator\<close>: any exception of the body resets the object and is raised again
  as a \<^verbatim>\<open>ValueError\<close> with the arguments of the first one after a text. Raised in the
  handler, the new exception has the first one as its context.\<close>

definition read_iterator :: "string list \<Rightarrow> cubefile \<Rightarrow> cubefile \<times> (exc + unit)" where
  "read_iterator it r =
     (case read_body it r of
        Inl e \<Rightarrow> (reset, Inl (Exc ValueError (Text ''Error reading file'' # exc_args e) (Some e)))
      | Inr r' \<Rightarrow> (r', Inr ()))"

text \<open>\<^verbatim>\<open>read\<close>, lines 102 to 108: the source as a path. When the file is read without an
  exception the method returns (\<open>Some\<close>); otherwise the exception is dropped and the
  method goes on with the object as it is then (\<open>None\<close>).\<close>

definition read_path :: "(pyval \<Rightarrow> string option) \<Rightarrow> pyval \<Rightarrow> cubefile \<Rightarrow> cubefile \<times> unit option" where
  "read_path fs data_source r =
     (case fs data_source of
        None \<Rightarrow> (r, None)
      | Some text \<Rightarrow>
          (case read_iterator (file_lines text) (r\<lparr>filename := data_source\<rparr>) of
             (r', Inr u) \<Rightarrow> (r', Some u)
           | (r', Inl e) \<Rightarrow> (r', None)))"

text \<open>\<^verbatim>\<open>read\<close>: the path, then the text, then the iterator, then the last exception.\<close>

definition read :: "(pyval \<Rightarrow> string option) \<Rightarrow> pyval \<Rightarrow> cubefile \<Rightarrow> cubefile \<times> (exc + unit)" where
  "read fs data_source r =
     (case read_path fs data_source r of
        (r', Some u) \<Rightarrow> (r', Inr u)
      | (r', None) \<Rightarrow>
          (case data_source of
             PStr s \<Rightarrow> read_iterator (splitlines s) r'
           | _ \<Rightarrow>
               (case py_iter data_source of
                  None \<Rightarrow> (r', Inl (Exc ValueError [Text ''Could not read'', Val data_source] None))
                | Some ls \<Rightarrow>
                    (case read_iterator ls r' of
                       (r'', Inr u) \<Rightarrow> (r'', Inr u)
                     | (r'', Inl e) \<Rightarrow>
                         (r'', Inl (Exc ValueError [Text ''Could not read'', Val data_source] None))))))"

text \<open>\<^verbatim>\<open>__init__\<close>.\<close>

definition init :: "(pyval \<Rightarrow> string option) \<Rightarrow> pyval \<Rightarrow> cubefile \<times> (exc + unit)" where
  "init fs data_source =
     (if truthy data_source then read fs data_source reset else (reset, Inr ()))"

subsection \<open>What a stream declares\<close>

text \<open>The integer that starts line \<open>k\<close> of a stream (counted from 0): line 2 starts with
  the number of atoms (source line 145), lines 3 to 5 with the voxel counts of the axes
  (source line 152).\<close>

definition first_int :: "string list \<Rightarrow> nat \<Rightarrow> exc + int" where
  "first_int it k = seq (getitem it k) (\<lambda>l. seq (getitem (py_split l) 0) py_int)"

text \<open>The step vector of axis \<open>i\<close>: the tokens 1 to 3 of line \<open>3 + i\<close> as they are stored
  in a row of three (source line 159).\<close>

definition step_vector :: "string list \<Rightarrow> nat \<Rightarrow> exc + float64 list" where
  "step_vector it i =
     seq (getitem it (3 + i)) (\<lambda>l.
     seq (asarray_float (slice 1 4 (py_split l))) (broadcast_to 3))"

text \<open>The tokens of the voxel payload of a stream that declares \<open>n\<close> atoms, as source
  line 194 cuts them: the lines that follow the six lines of the head and the lines of
  the atoms are joined with nothing between them, and the result is cut at white space.
  Two tokens that meet at the end of a line without a line end are one token here.\<close>

definition payload_tokens :: "string list \<Rightarrow> int \<Rightarrow> string list" where
  "payload_tokens it n = findall_nonspace (concat (drop (6 + nat n) it))"

text \<open>The tokens of the payload as the format has them, where a line break separates
  as white space does: the tokens of each of these lines, in order. This definition
  follows the description of the format, not line 194.\<close>

definition line_tokens :: "string list \<Rightarrow> int \<Rightarrow> string list" where
  "line_tokens it n = concat (map py_split (drop (6 + nat n) it))"

text \<open>The exception of source line 166.\<close>

definition non_square_error :: exc where
  "non_square_error = Exc ValueError [Text ''Non square voxel shape.''] None"

text \<open>The shape that \<^verbatim>\<open>reset\<close> gives \<^verbatim>\<open>voxel_shape\<close>, and every successful read keeps.\<close>

definition is_3x3 :: "'a list list \<Rightarrow> bool" where
  "is_3x3 m = (length m = 3 \<and> list_all (\<lambda>row. length row = 3) m)"

subsection \<open>Streams used as examples\<close>

text \<open>A cube with one atom and a grid of 1 by 2 by 1 voxels, the second axis declared
  with a negative count, its two voxels on one line.\<close>

definition cube_lines :: "string list" where
  "cube_lines =
     [''h1'', ''h2'', ''1 0.0 0.0 0.0'',
      ''1 1.0 0.0 0.0'', ''-2 0.0 1.0 0.0'', ''1 0.0 0.0 1.0'',
      ''6 0.0 1.0 2.0 3.0'',
      ''1.0 2.0'']"

text \<open>The same head, two atoms declared and one given.\<close>

definition truncated_lines :: "string list" where
  "truncated_lines =
     [''h1'', ''h2'', ''2 0.0 0.0 0.0'',
      ''1 1.0 0.0 0.0'', ''-2 0.0 1.0 0.0'', ''1 0.0 0.0 1.0'',
      ''6 0.0 1.0 2.0 3.0'']"

text \<open>The voxels of the first axis are not square.\<close>

definition nonsquare_lines :: "string list" where
  "nonsquare_lines =
     [''h1'', ''h2'', ''1 0.0 0.0 0.0'',
      ''1 1.0 0.5 0.0'', ''-2 0.0 1.0 0.0'', ''1 0.0 0.0 1.0'',
      ''6 0.0 1.0 2.0 3.0'',
      ''1.0 2.0'']"

text \<open>The step of the first axis is infinite.\<close>

definition inf_lines :: "string list" where
  "inf_lines =
     [''h1'', ''h2'', ''1 0.0 0.0 0.0'',
      ''1 inf 0.0 0.0'', ''-2 0.0 1.0 0.0'', ''1 0.0 0.0 1.0'',
      ''6 0.0 1.0 2.0 3.0'',
      ''1.0 2.0'']"

text \<open>The number of atoms is negative, and no line of an atom follows.\<close>

definition negative_count_lines :: "string list" where
  "negative_count_lines =
     [''h1'', ''h2'', ''-1 0.0 0.0 0.0'',
      ''1 1.0 0.0 0.0'', ''-2 0.0 1.0 0.0'', ''1 0.0 0.0 1.0'',
      ''1.0 2.0'']"

text \<open>The two voxels of \<open>cube_lines\<close> on a line each.\<close>

definition wrapped_lines :: "string list" where
  "wrapped_lines =
     [''h1'', ''h2'', ''1 0.0 0.0 0.0'',
      ''1 1.0 0.0 0.0'', ''-2 0.0 1.0 0.0'', ''1 0.0 0.0 1.0'',
      ''6 0.0 1.0 2.0 3.0'',
      ''1.0'', ''2.0'']"

text \<open>No atom, a grid of one voxel, and two tokens, a line each.\<close>

definition merged_lines :: "string list" where
  "merged_lines =
     [''h1'', ''h2'', ''0 0.0 0.0 0.0'',
      ''-1 1.0 0.0 0.0'', ''-1 0.0 1.0 0.0'', ''-1 0.0 0.0 1.0'',
      ''1'', ''2'']"

text \<open>The count of the first axis is zero, and there is no payload.\<close>

definition zero_count_lines :: "string list" where
  "zero_count_lines =
     [''h1'', ''h2'', ''0 0.0 0.0 0.0'',
      ''0 1.0 0.0 0.0'', ''-2 0.0 1.0 0.0'', ''1 0.0 0.0 1.0'']"

text \<open>The text of a file with these lines, a line feed after each.\<close>

definition with_lf :: "string list \<Rightarrow> string" where
  "with_lf ls = concat (map (\<lambda>l. l @ [CHR 0x0A]) ls)"

text \<open>A file system without files, and one with a single file.\<close>

definition no_files :: "pyval \<Rightarrow> string option" where
  "no_files p = None"

definition one_file :: "string \<Rightarrow> string \<Rightarrow> pyval \<Rightarrow> string option" where
  "one_file path text p = (if p = PStr path then Some text else None)"

text \<open>The object after a read of \<open>cube_lines\<close>, but for its file name, its header
  and its atoms; and the atom of \<open>cube_lines\<close>.\<close>

definition cube_record :: "pyval \<Rightarrow> string \<Rightarrow> atom list \<Rightarrow> cubefile" where
  "cube_record f h as =
     \<lparr>filename = f, header = h, origin = [Num 0, Num 0, Num 0],
      voxel_shape = [[Num 1, Num 0, Num 0], [Num 0, Num 1, Num 0], [Num 0, Num 0, Num 1]],
      unit_conversion = [BOHR_TO_ANGSTROM, Num 1, BOHR_TO_ANGSTROM],
      scale = [BOHR_TO_ANGSTROM, Num 1, BOHR_TO_ANGSTROM],
      atoms = as,
      voxels = \<lparr>shape = [1, 2, 1], data = [Num 1, Num 2]\<rparr>\<rparr>"

definition cube_atom :: atom where
  "cube_atom =
     \<lparr>element = 6, charge = Num 0,
      xyz = [fmul (Num 1) BOHR_TO_ANGSTROM, Num 2, fmul (Num 3) BOHR_TO_ANGSTROM]\<rparr>"

section \<open>Properties\<close>

subsection \<open>What a successful read has done\<close>

lemma seq_simps [simp]: "seq (Inr x) f = f x" "seq (Inl e) f = Inl e"
  by (simp_all add: seq_def)

lemma seq_eq_Inr: "seq m f = Inr y \<longleftrightarrow> (\<exists>x. m = Inr x \<and> f x = Inr y)"
  by (cases m) simp_all

lemma read_header_Inr:
  "read_header it r = Inr (it', r') \<longleftrightarrow> (\<exists>l1 l2. it = l1 # l2 # it' \<and> r' = r\<lparr>header := l1 @ l2\<rparr>)"
  by (auto simp: read_header_def next_line_def split: list.splits)

lemma read_origin_Inr:
  "read_origin it r = Inr (it', r', n) \<Longrightarrow>
     \<exists>l org. it = l # it' \<and> seq (getitem (py_split l) 0) py_int = Inr n \<and> r' = r\<lparr>origin := org\<rparr>"
  by (auto simp: read_origin_def next_line_def Let_def seq_eq_Inr split: list.splits)


lemma seqE: "seq m f = Inr y \<Longrightarrow> (\<And>x. m = Inr x \<Longrightarrow> f x = Inr y \<Longrightarrow> P) \<Longrightarrow> P"
  by (cases m) simp_all

lemma next_line_Inr: "next_line it = Inr (l, it') \<longleftrightarrow> it = l # it'"
  by (cases it) (auto simp: next_line_def)

lemma setitem_Inr: "setitem xs i v = Inr ys \<longleftrightarrow> i < length xs \<and> ys = xs[i := v]"
  by (auto simp: setitem_def)

lemma set_row_Inr:
  "set_row m i row = Inr m' \<longleftrightarrow>
     i < length m \<and> (\<exists>row'. broadcast_to (length (m ! i)) row = Inr row' \<and> m' = m[i := row'])"
  by (auto simp: set_row_def seq_eq_Inr)

lemma read_axis_Inr:
  assumes "read_axis i (it, r, vc) = Inr (it', r', vc')"
  shows "\<exists>l n row row'. it = l # it' \<and> seq (getitem (py_split l) 0) py_int = Inr n
       \<and> vc' = vc[i := \<bar>n\<bar>]
       \<and> i < length (unit_conversion r)
       \<and> asarray_float (slice 1 4 (py_split l)) = Inr row
       \<and> i < length (voxel_shape r)
       \<and> broadcast_to (length (voxel_shape r ! i)) row = Inr row'
       \<and> r' = r\<lparr>unit_conversion := (unit_conversion r)[i := if n < 0 then Num 1 else BOHR_TO_ANGSTROM],
                 voxel_shape := (voxel_shape r)[i := row']\<rparr>"
proof -
  from assms obtain l it1 where nl: "next_line it = Inr (l, it1)"
    and rest: "seq (getitem (py_split l) 0) (\<lambda>t.
        seq (py_int t) (\<lambda>n.
        seq (if n < 0 then seq (setitem (unit_conversion r) i (Num 1)) (\<lambda>uc. Inr (vc[i := - n], uc))
             else seq (setitem (unit_conversion r) i BOHR_TO_ANGSTROM) (\<lambda>uc. Inr (vc[i := n], uc)))
          (\<lambda>(vc', uc).
        seq (asarray_float (slice 1 4 (py_split l))) (\<lambda>row.
        seq (set_row (voxel_shape r) i row) (\<lambda>vs.
        Inr (it1, r\<lparr>unit_conversion := uc, voxel_shape := vs\<rparr>, vc')))))) = Inr (it', r', vc')"
    unfolding read_axis_def by (auto simp: Let_def elim!: seqE)
  from rest obtain t n vcuc row vs where
    t: "getitem (py_split l) 0 = Inr t" and n: "py_int t = Inr n"
    and vcuc: "(if n < 0 then seq (setitem (unit_conversion r) i (Num 1)) (\<lambda>uc. Inr (vc[i := - n], uc))
             else seq (setitem (unit_conversion r) i BOHR_TO_ANGSTROM) (\<lambda>uc. Inr (vc[i := n], uc))) = Inr vcuc"
    and row: "asarray_float (slice 1 4 (py_split l)) = Inr row"
    and vs: "set_row (voxel_shape r) i row = Inr vs"
    and res: "(it1, r\<lparr>unit_conversion := snd vcuc, voxel_shape := vs\<rparr>, fst vcuc) = (it', r', vc')"
    by (auto elim!: seqE simp: split_beta)
  from vcuc have il: "i < length (unit_conversion r)"
    and v1: "fst vcuc = vc[i := \<bar>n\<bar>]"
    and v2: "snd vcuc = (unit_conversion r)[i := if n < 0 then Num 1 else BOHR_TO_ANGSTROM]"
    by (auto simp: seq_eq_Inr setitem_Inr split: if_splits)
  from vs obtain row' where "i < length (voxel_shape r)"
    "broadcast_to (length (voxel_shape r ! i)) row = Inr row'" "vs = (voxel_shape r)[i := row']"
    by (auto simp: set_row_Inr)
  with nl t n il v1 v2 row res show ?thesis
    by (auto simp: next_line_Inr)
qed

lemma mapM_Inr: "mapM f xs = Inr ys \<longleftrightarrow> map f xs = map Inr ys"
proof (induction xs arbitrary: ys)
  case Nil
  then show ?case by auto
next
  case (Cons x xs)
  show ?case
  proof (cases ys)
    case Nil
    then show ?thesis by (auto simp: seq_eq_Inr)
  next
    case (Cons y ys')
    with Cons.IH [of ys'] show ?thesis by (auto simp: seq_eq_Inr)
  qed
qed

lemma for_each_Cons_Inr:
  "for_each (i # is) body s = Inr s' \<longleftrightarrow> (\<exists>s1. body i s = Inr s1 \<and> for_each is body s1 = Inr s')"
  by (simp add: seq_eq_Inr)

lemma read_axes_Inr:
  assumes "read_axes it r = Inr (it', r', vc)"
  shows "\<exists>a0 a1 a2 n0 n1 n2 w0 w1 w2 v0 v1 v2.
       it = a0 # a1 # a2 # it'
     \<and> seq (getitem (py_split a0) 0) py_int = Inr n0
     \<and> seq (getitem (py_split a1) 0) py_int = Inr n1
     \<and> seq (getitem (py_split a2) 0) py_int = Inr n2
     \<and> vc = [\<bar>n0\<bar>, \<bar>n1\<bar>, \<bar>n2\<bar>]
     \<and> 2 < length (unit_conversion r) \<and> 2 < length (voxel_shape r)
     \<and> asarray_float (slice 1 4 (py_split a0)) = Inr w0
     \<and> asarray_float (slice 1 4 (py_split a1)) = Inr w1
     \<and> asarray_float (slice 1 4 (py_split a2)) = Inr w2
     \<and> broadcast_to (length (voxel_shape r ! 0)) w0 = Inr v0
     \<and> broadcast_to (length (voxel_shape r ! 1)) w1 = Inr v1
     \<and> broadcast_to (length (voxel_shape r ! 2)) w2 = Inr v2
     \<and> r' = r\<lparr>unit_conversion := (unit_conversion r)
                  [0 := if n0 < 0 then Num 1 else BOHR_TO_ANGSTROM,
                   1 := if n1 < 0 then Num 1 else BOHR_TO_ANGSTROM,
                   2 := if n2 < 0 then Num 1 else BOHR_TO_ANGSTROM],
               voxel_shape := (voxel_shape r)[0 := v0, 1 := v1, 2 := v2]\<rparr>"
proof -
  from assms obtain it0 r0 vc0 it1 r1 vc1 where
    a: "read_axis 0 (it, r, [0, 0, 0]) = Inr (it0, r0, vc0)" and
    b: "read_axis (Suc 0) (it0, r0, vc0) = Inr (it1, r1, vc1)" and
    c: "read_axis 2 (it1, r1, vc1) = Inr (it', r', vc)"
    unfolding read_axes_def by (auto simp: seq_eq_Inr)
  from read_axis_Inr [OF a] obtain a0 n0 w0 v0 where
    A: "it = a0 # it0" "seq (getitem (py_split a0) 0) py_int = Inr n0" "vc0 = [0, 0, 0][0 := \<bar>n0\<bar>]"
       "0 < length (unit_conversion r)" "asarray_float (slice 1 4 (py_split a0)) = Inr w0"
       "0 < length (voxel_shape r)" "broadcast_to (length (voxel_shape r ! 0)) w0 = Inr v0"
       "r0 = r\<lparr>unit_conversion := (unit_conversion r)[0 := if n0 < 0 then Num 1 else BOHR_TO_ANGSTROM],
                 voxel_shape := (voxel_shape r)[0 := v0]\<rparr>"
    by blast
  from read_axis_Inr [OF b] obtain a1 n1 w1 v1 where
    B: "it0 = a1 # it1" "seq (getitem (py_split a1) 0) py_int = Inr n1" "vc1 = vc0[Suc 0 := \<bar>n1\<bar>]"
       "Suc 0 < length (unit_conversion r0)" "asarray_float (slice 1 4 (py_split a1)) = Inr w1"
       "Suc 0 < length (voxel_shape r0)" "broadcast_to (length (voxel_shape r0 ! Suc 0)) w1 = Inr v1"
       "r1 = r0\<lparr>unit_conversion := (unit_conversion r0)[Suc 0 := if n1 < 0 then Num 1 else BOHR_TO_ANGSTROM],
                 voxel_shape := (voxel_shape r0)[Suc 0 := v1]\<rparr>"
    by blast
  from read_axis_Inr [OF c] obtain a2 n2 w2 v2 where
    C: "it1 = a2 # it'" "seq (getitem (py_split a2) 0) py_int = Inr n2" "vc = vc1[2 := \<bar>n2\<bar>]"
       "2 < length (unit_conversion r1)" "asarray_float (slice 1 4 (py_split a2)) = Inr w2"
       "2 < length (voxel_shape r1)" "broadcast_to (length (voxel_shape r1 ! 2)) w2 = Inr v2"
       "r' = r1\<lparr>unit_conversion := (unit_conversion r1)[2 := if n2 < 0 then Num 1 else BOHR_TO_ANGSTROM],
                 voxel_shape := (voxel_shape r1)[2 := v2]\<rparr>"
    by blast
  have vc: "vc = [\<bar>n0\<bar>, \<bar>n1\<bar>, \<bar>n2\<bar>]"
    using A(3) B(3) C(3) by (simp add: numeral_2_eq_2)
  have len: "2 < length (unit_conversion r)" "2 < length (voxel_shape r)"
    using C(4,6) A(8) B(8) by simp_all
  have w1: "broadcast_to (length (voxel_shape r ! 1)) w1 = Inr v1"
    using B(7) A(8) by simp
  have w2: "broadcast_to (length (voxel_shape r ! 2)) w2 = Inr v2"
    using C(7) A(8) B(8) by simp
  have r': "r' = r\<lparr>unit_conversion := (unit_conversion r)
                  [0 := if n0 < 0 then Num 1 else BOHR_TO_ANGSTROM,
                   1 := if n1 < 0 then Num 1 else BOHR_TO_ANGSTROM,
                   2 := if n2 < 0 then Num 1 else BOHR_TO_ANGSTROM],
               voxel_shape := (voxel_shape r)[0 := v0, 1 := v1, 2 := v2]\<rparr>"
    using A(8) B(8) C(8) by simp
  show ?thesis
    using A(1,2,5,7) B(1,2,5) C(1,2,5) vc len w1 w2 r' by blast
qed

lemma setup_grid_Inr:
  assumes "setup_grid r vc = Inr r'"
  shows "off_diagonal_any (voxel_shape r) = Inr False \<and>
     (\<exists>org sc. np_multiply (origin r) (unit_conversion r) = Inr org \<and>
        r' = r\<lparr>origin := org, voxels := np_zeros (map nat vc), scale := sc\<rparr>)"
proof -
  from assms obtain bad where bad: "off_diagonal_any (voxel_shape r) = Inr bad"
    and rest: "(if bad then Inl (Exc ValueError [Text ''Non square voxel shape.''] None)
     else
       seq (np_multiply (origin r) (unit_conversion r)) (\<lambda>org.
       let r1 = r\<lparr>origin := org\<rparr>;
           r2 = r1\<lparr>voxels := np_zeros (map nat vc)\<rparr> in
       seq (np_multiply (norm_axis1 (voxel_shape r2)) (unit_conversion r2)) (\<lambda>sc.
       Inr (r2\<lparr>scale := sc\<rparr>)))) = Inr r'"
    unfolding setup_grid_def by (erule seqE)
  from rest have nb: "\<not> bad" by (cases bad) simp_all
  with rest show ?thesis using bad
    by (auto simp: Let_def seq_eq_Inr)
qed

lemma read_atom_Inr:
  "read_atom i (it, r) = Inr (it', r') \<longleftrightarrow>
     (\<exists>l a. it = l # it' \<and> parse_atom (unit_conversion r) l = Inr a \<and> r' = r\<lparr>atoms := atoms r @ [a]\<rparr>)"
  by (auto simp: read_atom_def seq_eq_Inr next_line_Inr)

lemma for_each_read_atom_Inr:
  "for_each is read_atom (it, r) = Inr (it', r') \<Longrightarrow>
     \<exists>ls as. it = ls @ it' \<and> length ls = length is
       \<and> map (parse_atom (unit_conversion r)) ls = map Inr as
       \<and> r' = r\<lparr>atoms := atoms r @ as\<rparr>"
proof (induction "is" arbitrary: it r)
  case Nil
  then have "it = [] @ it' \<and> length ([]::string list) = length ([]::nat list)
       \<and> map (parse_atom (unit_conversion r)) [] = map Inr []
       \<and> r' = r\<lparr>atoms := atoms r @ []\<rparr>" by simp
  then show ?case by blast
next
  case (Cons i "is")
  from Cons.prems obtain it1 r1 where
    step: "read_atom i (it, r) = Inr (it1, r1)" and rest: "for_each is read_atom (it1, r1) = Inr (it', r')"
    by (auto simp: seq_eq_Inr)
  from step obtain l a where
    l: "it = l # it1" "parse_atom (unit_conversion r) l = Inr a" "r1 = r\<lparr>atoms := atoms r @ [a]\<rparr>"
    by (auto simp: read_atom_Inr)
  from Cons.IH [OF rest] obtain ls as where
    ih: "it1 = ls @ it'" "length ls = length is"
        "map (parse_atom (unit_conversion r1)) ls = map Inr as" "r' = r1\<lparr>atoms := atoms r1 @ as\<rparr>"
    by blast
  have "it = (l # ls) @ it' \<and> length (l # ls) = length (i # is)
       \<and> map (parse_atom (unit_conversion r)) (l # ls) = map Inr (a # as)
       \<and> r' = r\<lparr>atoms := atoms r @ (a # as)\<rparr>"
    using l ih by simp
  then show ?case by blast
qed

lemma read_atoms_Inr:
  assumes "read_atoms n it r = Inr (it', r')"
  shows "\<exists>ls as. it = ls @ it' \<and> length ls = nat n
       \<and> map (parse_atom (unit_conversion r)) ls = map Inr as
       \<and> r' = r\<lparr>atoms := atoms r @ as\<rparr>"
  using for_each_read_atom_Inr [of "[0 ..< nat n]" it r it' r'] assms
  by (simp add: read_atoms_def)

lemma np_reshape_Inr:
  "np_reshape arr shp = Inr v \<longleftrightarrow> length arr = prod_list shp \<and> v = \<lparr>shape = shp, data = arr\<rparr>"
  by (auto simp: np_reshape_def)

lemma read_voxels_Inr:
  assumes "read_voxels it r vc = Inr r'"
  shows "\<exists>arr. asarray_float (findall_nonspace (concat it)) = Inr arr
     \<and> length arr = prod_list (shape (voxels r))
     \<and> shape (voxels r) = map nat vc
     \<and> r' = r\<lparr>voxels := \<lparr>shape = shape (voxels r), data = arr\<rparr>\<rparr>"
  using assms
  by (auto simp: read_voxels_def seq_eq_Inr np_reshape_Inr Let_def split: if_splits)

lemma read_body_Inr:
  assumes "read_body it r = Inr r'"
  obtains l1 l2 l3 a0 a1 a2 ls rest n n0 n1 n2 w0 w1 w2 v0 v1 v2 org sc as arr where
    "it = l1 # l2 # l3 # a0 # a1 # a2 # ls @ rest"
    "seq (getitem (py_split l3) 0) py_int = Inr n"
    "seq (getitem (py_split a0) 0) py_int = Inr n0"
    "seq (getitem (py_split a1) 0) py_int = Inr n1"
    "seq (getitem (py_split a2) 0) py_int = Inr n2"
    "asarray_float (slice 1 4 (py_split a0)) = Inr w0"
    "asarray_float (slice 1 4 (py_split a1)) = Inr w1"
    "asarray_float (slice 1 4 (py_split a2)) = Inr w2"
    "broadcast_to (length (voxel_shape r ! 0)) w0 = Inr v0"
    "broadcast_to (length (voxel_shape r ! 1)) w1 = Inr v1"
    "broadcast_to (length (voxel_shape r ! 2)) w2 = Inr v2"
    "2 < length (unit_conversion r)" "2 < length (voxel_shape r)"
    "off_diagonal_any ((voxel_shape r)[0 := v0, 1 := v1, 2 := v2]) = Inr False"
    "length ls = nat n"
    "map (parse_atom ((unit_conversion r)
                  [0 := if n0 < 0 then Num 1 else BOHR_TO_ANGSTROM,
                   1 := if n1 < 0 then Num 1 else BOHR_TO_ANGSTROM,
                   2 := if n2 < 0 then Num 1 else BOHR_TO_ANGSTROM])) ls = map Inr as"
    "asarray_float (findall_nonspace (concat rest)) = Inr arr"
    "length arr = nat \<bar>n0\<bar> * nat \<bar>n1\<bar> * nat \<bar>n2\<bar>"
    "r' = \<lparr>filename = filename r, header = l1 @ l2, origin = org,
           voxel_shape = (voxel_shape r)[0 := v0, 1 := v1, 2 := v2],
           unit_conversion = (unit_conversion r)
                  [0 := if n0 < 0 then Num 1 else BOHR_TO_ANGSTROM,
                   1 := if n1 < 0 then Num 1 else BOHR_TO_ANGSTROM,
                   2 := if n2 < 0 then Num 1 else BOHR_TO_ANGSTROM],
           scale = sc, atoms = atoms r @ as,
           voxels = \<lparr>shape = [nat \<bar>n0\<bar>, nat \<bar>n1\<bar>, nat \<bar>n2\<bar>], data = arr\<rparr>\<rparr>"
proof -
  from assms obtain it1 r1 it2 r2 n it3 r3 vc r4 it5 r5 where
    h: "read_header it r = Inr (it1, r1)" and
    o: "read_origin it1 r1 = Inr (it2, r2, n)" and
    a: "read_axes it2 r2 = Inr (it3, r3, vc)" and
    g: "setup_grid r3 vc = Inr r4" and
    t: "read_atoms n it3 r4 = Inr (it5, r5)" and
    v: "read_voxels it5 r5 vc = Inr r'"
    unfolding read_body_def by (auto simp: seq_eq_Inr)
  from h obtain l1 l2 where H: "it = l1 # l2 # it1" "r1 = r\<lparr>header := l1 @ l2\<rparr>"
    by (auto simp: read_header_Inr)
  from read_origin_Inr [OF o] obtain l3 org0 where
    O: "it1 = l3 # it2" "seq (getitem (py_split l3) 0) py_int = Inr n" "r2 = r1\<lparr>origin := org0\<rparr>"
    by blast
  from read_axes_Inr [OF a] obtain a0 a1 a2 n0 n1 n2 w0 w1 w2 v0 v1 v2 where
    A: "it2 = a0 # a1 # a2 # it3"
     "seq (getitem (py_split a0) 0) py_int = Inr n0"
     "seq (getitem (py_split a1) 0) py_int = Inr n1"
     "seq (getitem (py_split a2) 0) py_int = Inr n2"
     "vc = [\<bar>n0\<bar>, \<bar>n1\<bar>, \<bar>n2\<bar>]"
     "2 < length (unit_conversion r2)" "2 < length (voxel_shape r2)"
     "asarray_float (slice 1 4 (py_split a0)) = Inr w0"
     "asarray_float (slice 1 4 (py_split a1)) = Inr w1"
     "asarray_float (slice 1 4 (py_split a2)) = Inr w2"
     "broadcast_to (length (voxel_shape r2 ! 0)) w0 = Inr v0"
     "broadcast_to (length (voxel_shape r2 ! 1)) w1 = Inr v1"
     "broadcast_to (length (voxel_shape r2 ! 2)) w2 = Inr v2"
     "r3 = r2\<lparr>unit_conversion := (unit_conversion r2)
                  [0 := if n0 < 0 then Num 1 else BOHR_TO_ANGSTROM,
                   1 := if n1 < 0 then Num 1 else BOHR_TO_ANGSTROM,
                   2 := if n2 < 0 then Num 1 else BOHR_TO_ANGSTROM],
               voxel_shape := (voxel_shape r2)[0 := v0, 1 := v1, 2 := v2]\<rparr>"
    by blast
  from setup_grid_Inr [OF g] obtain org sc where
    G: "off_diagonal_any (voxel_shape r3) = Inr False"
       "r4 = r3\<lparr>origin := org, voxels := np_zeros (map nat vc), scale := sc\<rparr>"
    by blast
  from read_atoms_Inr [OF t] obtain ls as where
    T: "it3 = ls @ it5" "length ls = nat n"
       "map (parse_atom (unit_conversion r4)) ls = map Inr as" "r5 = r4\<lparr>atoms := atoms r4 @ as\<rparr>"
    by blast
  from read_voxels_Inr [OF v] obtain arr where
    V: "asarray_float (findall_nonspace (concat it5)) = Inr arr"
       "length arr = prod_list (shape (voxels r5))"
       "r' = r5\<lparr>voxels := \<lparr>shape = shape (voxels r5), data = arr\<rparr>\<rparr>"
    by blast
  have r2: "unit_conversion r2 = unit_conversion r" "voxel_shape r2 = voxel_shape r"
    using H(2) O(3) by simp_all
  have shp: "shape (voxels r5) = [nat \<bar>n0\<bar>, nat \<bar>n1\<bar>, nat \<bar>n2\<bar>]"
    using T(4) G(2) A(5) by (simp add: np_zeros_def)
  show thesis
  proof (rule that [where ?l1.0 = l1 and ?l2.0 = l2 and ?l3.0 = l3 and ?a0.0 = a0 and ?a1.0 = a1 and ?a2.0 = a2 and ls = ls and rest = it5 and n = n and ?n0.0 = n0 and ?n1.0 = n1 and ?n2.0 = n2 and ?w0.0 = w0 and ?w1.0 = w1 and ?w2.0 = w2 and ?v0.0 = v0 and ?v1.0 = v1 and ?v2.0 = v2 and org = org and sc = sc and as = as and arr = arr])
    show "it = l1 # l2 # l3 # a0 # a1 # a2 # ls @ it5"
      using H(1) O(1) A(1) T(1) by simp
    show "off_diagonal_any ((voxel_shape r)[0 := v0, 1 := v1, 2 := v2]) = Inr False"
      using G(1) A(14) r2 by simp
    show "map (parse_atom ((unit_conversion r)
                  [0 := if n0 < 0 then Num 1 else BOHR_TO_ANGSTROM,
                   1 := if n1 < 0 then Num 1 else BOHR_TO_ANGSTROM,
                   2 := if n2 < 0 then Num 1 else BOHR_TO_ANGSTROM])) ls = map Inr as"
      using T(3) G(2) A(14) r2 by simp
    show "length arr = nat \<bar>n0\<bar> * nat \<bar>n1\<bar> * nat \<bar>n2\<bar>"
      using V(2) shp by simp
    show "r' = \<lparr>filename = filename r, header = l1 @ l2, origin = org,
           voxel_shape = (voxel_shape r)[0 := v0, 1 := v1, 2 := v2],
           unit_conversion = (unit_conversion r)
                  [0 := if n0 < 0 then Num 1 else BOHR_TO_ANGSTROM,
                   1 := if n1 < 0 then Num 1 else BOHR_TO_ANGSTROM,
                   2 := if n2 < 0 then Num 1 else BOHR_TO_ANGSTROM],
           scale = sc, atoms = atoms r @ as,
           voxels = \<lparr>shape = [nat \<bar>n0\<bar>, nat \<bar>n1\<bar>, nat \<bar>n2\<bar>], data = arr\<rparr>\<rparr>"
      using V(3) shp T(4) G(2) A(14) O(3) H(2) by simp
  qed (use O(2) A(2-4,8-13) A(6,7) r2 T(2) V(1) in simp_all)
qed

lemma read_iterator_Inl:
  "read_body it r = Inl e \<Longrightarrow>
     read_iterator it r = (reset, Inl (Exc ValueError (Text ''Error reading file'' # exc_args e) (Some e)))"
  by (simp add: read_iterator_def)

lemma read_iterator_Inr: "read_body it r = Inr r' \<Longrightarrow> read_iterator it r = (r', Inr ())"
  by (simp add: read_iterator_def)

lemma read_iterator_success:
  "snd (read_iterator it r) = Inr u \<Longrightarrow> read_body it r = Inr (fst (read_iterator it r))"
  by (cases "read_body it r") (simp_all add: read_iterator_def)

lemma getitem_Cons_0: "getitem (x # xs) 0 = Inr x"
  by (simp add: getitem_def)

lemma getitem_Cons_Suc: "getitem (x # xs) (Suc k) = getitem xs k"
  by (simp add: getitem_def)

lemma first_int_Cons_0: "first_int (l # it) 0 = seq (getitem (py_split l) 0) py_int"
  by (simp add: first_int_def getitem_Cons_0)

lemma first_int_Cons_Suc: "first_int (l # it) (Suc k) = first_int it k"
  by (simp add: first_int_def getitem_Cons_Suc)

lemma first_int_head:
  "first_int (l1 # l2 # l3 # a0 # a1 # a2 # it) 2 = seq (getitem (py_split l3) 0) py_int"
  "first_int (l1 # l2 # l3 # a0 # a1 # a2 # it) 3 = seq (getitem (py_split a0) 0) py_int"
  "first_int (l1 # l2 # l3 # a0 # a1 # a2 # it) 4 = seq (getitem (py_split a1) 0) py_int"
  "first_int (l1 # l2 # l3 # a0 # a1 # a2 # it) 5 = seq (getitem (py_split a2) 0) py_int"
  by (simp_all add: eval_nat_numeral first_int_Cons_0 first_int_Cons_Suc)

lemma payload_tokens_head:
  "length ls = nat n \<Longrightarrow>
     payload_tokens (l1 # l2 # l3 # a0 # a1 # a2 # ls @ rest) n = findall_nonspace (concat rest)"
  by (simp add: payload_tokens_def eval_nat_numeral)

lemma row_major_index_bound:
  fixes a b :: nat
  assumes "a < A" and "b < B"
  shows "a * B + b < A * B"
proof -
  have "a * B + b < a * B + B" using assms(2) by simp
  also have "\<dots> = Suc a * B" by simp
  also have "\<dots> \<le> A * B" using assms(1) by (intro mult_le_mono1) simp
  finally show ?thesis .
qed

lemma map_eq_nth:
  assumes "map f xs = map g ys" and "i < length xs"
  shows "f (xs ! i) = g (ys ! i)"
proof -
  from assms(1) have "length xs = length ys" by (rule map_eq_imp_length_eq)
  with assms have "map f xs ! i = map g ys ! i" "i < length ys" by simp_all
  with assms(2) show ?thesis by simp
qed

lemma off_diagonal_mask_eq:
  "off_diagonal_mask = [[Num 0, Num 1, Num 1], [Num 1, Num 0, Num 1], [Num 1, Num 1, Num 0]]"
  by (simp add: off_diagonal_mask_def identity3_def fadd_def fmul_def)

lemma nonzero_fmul_one: "nonzero (fmul x (Num 1)) \<longleftrightarrow> x \<noteq> Num 0"
  by (cases x) (simp_all add: nonzero_def fmul_def is_negative_def)

lemma nonzero_fmul_zero: "nonzero (fmul (Num a) (Num 0)) \<longleftrightarrow> False"
  by (simp add: nonzero_def fmul_def)

lemma off_diagonal_any_3x3:
  "off_diagonal_any [[a, b, c], [d, e, f], [g, h, k]] =
     Inr (nonzero (fmul a (Num 0)) \<or> b \<noteq> Num 0 \<or> c \<noteq> Num 0
        \<or> d \<noteq> Num 0 \<or> nonzero (fmul e (Num 0)) \<or> f \<noteq> Num 0
        \<or> g \<noteq> Num 0 \<or> h \<noteq> Num 0 \<or> nonzero (fmul k (Num 0)))"
  by (auto simp: off_diagonal_any_def broadcast_to_def off_diagonal_mask_eq nonzero_fmul_one)

lemma length_3E:
  assumes "length v = 3"
  obtains a b c where "v = [a, b, c]"
  using assms by (auto simp: numeral_3_eq_3 length_Suc_conv)

lemma broadcast_to_length: "broadcast_to n xs = Inr ys \<Longrightarrow> length ys = n"
  by (auto simp: broadcast_to_def split: if_splits)

lemma step_vector_head:
  "step_vector (l1 # l2 # l3 # a0 # a1 # a2 # it) 0
     = seq (asarray_float (slice 1 4 (py_split a0))) (broadcast_to 3)"
  "step_vector (l1 # l2 # l3 # a0 # a1 # a2 # it) 1
     = seq (asarray_float (slice 1 4 (py_split a1))) (broadcast_to 3)"
  "step_vector (l1 # l2 # l3 # a0 # a1 # a2 # it) 2
     = seq (asarray_float (slice 1 4 (py_split a2))) (broadcast_to 3)"
  by (simp_all add: step_vector_def getitem_def)

lemma is_3x3_rows:
  assumes "is_3x3 m"
  shows "length m = 3" "length (m ! 0) = 3" "length (m ! 1) = 3" "length (m ! 2) = 3"
proof -
  from assms have l: "length m = 3" by (simp add: is_3x3_def)
  then obtain a b c where "m = [a, b, c]" by (rule length_3E)
  with assms show "length m = 3" "length (m ! 0) = 3" "length (m ! 1) = 3" "length (m ! 2) = 3"
    by (simp_all add: is_3x3_def)
qed

lemma read_body_step_vectors:
  assumes "read_body it r = Inr r'" and "is_3x3 (voxel_shape r)"
  obtains v0 v1 v2 where
    "step_vector it 0 = Inr v0" "step_vector it 1 = Inr v1" "step_vector it 2 = Inr v2"
    "voxel_shape r' = [v0, v1, v2]" "off_diagonal_any [v0, v1, v2] = Inr False"
    "length v0 = 3" "length v1 = 3" "length v2 = 3"
proof -
  from assms(1) obtain l1 l2 l3 a0 a1 a2 ls rest n n0 n1 n2
      w0 w1 w2 v0 v1 v2 org sc as arr where
    it: "it = l1 # l2 # l3 # a0 # a1 # a2 # ls @ rest" and
    w: "asarray_float (slice 1 4 (py_split a0)) = Inr w0"
       "asarray_float (slice 1 4 (py_split a1)) = Inr w1"
       "asarray_float (slice 1 4 (py_split a2)) = Inr w2" and
    b: "broadcast_to (length (voxel_shape r ! 0)) w0 = Inr v0"
       "broadcast_to (length (voxel_shape r ! 1)) w1 = Inr v1"
       "broadcast_to (length (voxel_shape r ! 2)) w2 = Inr v2" and
    od: "off_diagonal_any ((voxel_shape r)[0 := v0, 1 := v1, 2 := v2]) = Inr False" and
    r': "r' = \<lparr>filename = filename r, header = l1 @ l2, origin = org,
           voxel_shape = (voxel_shape r)[0 := v0, 1 := v1, 2 := v2],
           unit_conversion = (unit_conversion r)
                  [0 := if n0 < 0 then Num 1 else BOHR_TO_ANGSTROM,
                   1 := if n1 < 0 then Num 1 else BOHR_TO_ANGSTROM,
                   2 := if n2 < 0 then Num 1 else BOHR_TO_ANGSTROM],
           scale = sc, atoms = atoms r @ as,
           voxels = \<lparr>shape = [nat \<bar>n0\<bar>, nat \<bar>n1\<bar>, nat \<bar>n2\<bar>], data = arr\<rparr>\<rparr>"
    by (rule read_body_Inr)
  note rows = is_3x3_rows [OF assms(2)]
  from rows(1) obtain x y z where m: "voxel_shape r = [x, y, z]" by (rule length_3E)
  have upd: "(voxel_shape r)[0 := v0, 1 := v1, 2 := v2] = [v0, v1, v2]"
    by (simp add: m)
  have b3: "broadcast_to 3 w0 = Inr v0" "broadcast_to 3 w1 = Inr v1" "broadcast_to 3 w2 = Inr v2"
    using b rows by simp_all
  show thesis
  proof (rule that [of v0 v1 v2])
    show "step_vector it 0 = Inr v0" by (simp only: it step_vector_head w seq_simps b3)
    show "step_vector it 1 = Inr v1" by (simp only: it step_vector_head w seq_simps b3)
    show "step_vector it 2 = Inr v2" by (simp only: it step_vector_head w seq_simps b3)
    show "voxel_shape r' = [v0, v1, v2]" by (simp only: r' cubefile.select_convs upd)
    show "off_diagonal_any [v0, v1, v2] = Inr False" using od by (simp only: upd)
    show "length v0 = 3" "length v1 = 3" "length v2 = 3"
      using b3 by (simp_all only: broadcast_to_length)
  qed
qed

lemma off_diagonal_zero:
  assumes "off_diagonal_any [v0, v1, v2] = Inr False"
    and "length v0 = 3" "length v1 = 3" "length v2 = 3"
    and "i < 3" "j < 3" "i \<noteq> j"
  shows "[v0, v1, v2] ! i ! j = Num 0"
proof -
  from assms(2) obtain a b c where v0: "v0 = [a, b, c]" by (rule length_3E)
  from assms(3) obtain d e f where v1: "v1 = [d, e, f]" by (rule length_3E)
  from assms(4) obtain g h k where v2: "v2 = [g, h, k]" by (rule length_3E)
  from assms(1) have z: "b = Num 0" "c = Num 0" "d = Num 0" "f = Num 0" "g = Num 0" "h = Num 0"
    by (simp_all add: v0 v1 v2 off_diagonal_any_3x3)
  from assms(5) consider "i = 0" | "i = 1" | "i = 2" by linarith
  then show ?thesis
  proof cases
    case 1
    with assms(6,7) consider "j = 1" | "j = 2" by linarith
    then show ?thesis using 1 z by cases (simp_all add: v0)
  next
    case 2
    with assms(6,7) consider "j = 0" | "j = 2" by linarith
    then show ?thesis using 2 z by cases (simp_all add: v1)
  next
    case 3
    with assms(6,7) consider "j = 0" | "j = 1" by linarith
    then show ?thesis using 3 z by cases (simp_all add: v2)
  qed
qed

text \<open>Where every line but the last ends in white space, as the lines of a file end in
  a line feed, the tokens of the joined lines are the tokens of the lines. A successful
  read keeps the file name it found and the atoms it found, before the new ones.\<close>

lemma split_from_append:
  assumes "xs \<noteq> []" and "is_space (last xs)"
  shows "split_from cur (xs @ ys) = split_from cur xs @ split_from [] ys"
  using assms
proof (induction xs arbitrary: cur)
  case Nil
  then show ?case by simp
next
  case (Cons c xs)
  show ?case
  proof (cases "xs = []")
    case True
    with Cons.prems show ?thesis by simp
  next
    case False
    with Cons.prems have "is_space (last xs)" by simp
    with False Cons.IH show ?thesis by simp
  qed
qed

lemma tokens_of_terminated_lines:
  assumes "list_all (\<lambda>l. l \<noteq> [] \<and> is_space (last l)) ls"
  shows "findall_nonspace (concat (ls @ [l])) = concat (map py_split (ls @ [l]))"
  using assms
proof (induction ls)
  case Nil
  then show ?case by (simp add: findall_nonspace_def py_split_def [abs_def])
next
  case (Cons x ls)
  then have x: "x \<noteq> []" "is_space (last x)" and ih:
    "split_from [] (concat (ls @ [l])) = concat (map py_split (ls @ [l]))"
    by (simp_all add: findall_nonspace_def py_split_def [abs_def])
  show ?case
    using split_from_append [OF x, of "[]" "concat (ls @ [l])"] ih
    by (simp add: findall_nonspace_def py_split_def [abs_def])
qed

lemma read_body_keeps_atoms:
  assumes "read_body it r = Inr r'"
  shows "filename r' = filename r \<and> (\<exists>as. atoms r' = atoms r @ as)"
proof -
  from assms obtain l1 l2 l3 a0 a1 a2 ls rest n n0 n1 n2
      w0 w1 w2 v0 v1 v2 org sc as arr where
    "r' = \<lparr>filename = filename r, header = l1 @ l2, origin = org,
           voxel_shape = (voxel_shape r)[0 := v0, 1 := v1, 2 := v2],
           unit_conversion = (unit_conversion r)
                  [0 := if n0 < 0 then Num 1 else BOHR_TO_ANGSTROM,
                   1 := if n1 < 0 then Num 1 else BOHR_TO_ANGSTROM,
                   2 := if n2 < 0 then Num 1 else BOHR_TO_ANGSTROM],
           scale = sc, atoms = atoms r @ as,
           voxels = \<lparr>shape = [nat \<bar>n0\<bar>, nat \<bar>n1\<bar>, nat \<bar>n2\<bar>], data = arr\<rparr>\<rparr>"
    by (rule read_body_Inr)
  then show ?thesis by simp
qed

subsection \<open>Evaluation\<close>

lemmas text_defs = is_space_def is_linebreak_def py_split_def findall_nonspace_def
  splitlines_def file_lines_def

lemma to_float64_0: "to_float64 0 = Num 0"
  by (simp add: to_float64_def)

lemma range_bounds: "(1000000::real) < 2 ^ 1024 - 2 ^ 970" "1 / 2 ^ 1075 < (1 / 1000000 :: real)"
  by simp_all

lemma to_float64_moderate:
  assumes "1 / 1000000 \<le> \<bar>x\<bar>" and "\<bar>x\<bar> \<le> 1000000"
  shows "to_float64 x = Num x"
proof -
  have "\<bar>x\<bar> < 2 ^ 1024 - 2 ^ 970" using assms(2) range_bounds(1) by linarith
  moreover have "1 / 2 ^ 1075 < \<bar>x\<bar>" using assms(1) range_bounds(2) by linarith
  ultimately show ?thesis by (simp add: to_float64_def)
qed

lemmas number_defs = is_digit_def digit_val_def py_int_def py_float_def scan_sign_def
  scan_digitpart_def scan_mantissa_def scan_exponent_def ci_match_def
  to_float64_0 to_float64_moderate

lemmas array_defs = getitem_def slice_def setitem_def broadcast_to_def set_row_def
  np_multiply_def off_diagonal_any_def off_diagonal_mask_def identity3_def norm_axis1_def
  np_zeros_def asarray_float_def np_reshape_def
  fmul_def fadd_def fsqrt_def nonzero_def is_negative_def BOHR_TO_ANGSTROM_def

lemmas read_defs = read_body_def read_header_def read_origin_def read_axes_def read_axis_def
  setup_grid_def read_atoms_def read_atom_def parse_atom_def read_voxels_def next_line_def
  reset_def

lemma truncated_lines_body: "read_body truncated_lines reset = Inl (Exc StopIteration [] None)"
  by (simp add: truncated_lines_def read_defs array_defs number_defs text_defs numeral_2_eq_2)

lemmas ev = read_defs array_defs number_defs text_defs numeral_2_eq_2

lemma concat_file_lines_from: "concat (file_lines_from cur s) = cur @ s"
  by (induction s arbitrary: cur) simp_all

lemma concat_file_lines: "concat (file_lines s) = s"
  by (simp add: file_lines_def concat_file_lines_from)

lemma cube_lines_reset:
  "read_body cube_lines reset = Inr (cube_record PNone ''h1h2'' [cube_atom])"
  by (simp add: cube_lines_def cube_record_def cube_atom_def ev)

lemma cube_lines_again:
  "read_body cube_lines (cube_record f h as) = Inr (cube_record f ''h1h2'' (as @ [cube_atom]))"
  by (simp add: cube_lines_def cube_record_def cube_atom_def ev)

lemma splitlines_cube: "splitlines (with_lf cube_lines) = cube_lines"
  by (simp add: cube_lines_def with_lf_def text_defs)

lemma cube_file_reset:
  "read_body (file_lines (with_lf cube_lines)) (reset\<lparr>filename := f\<rparr>)
     = Inr (cube_record f (''h1'' @ [CHR 0x0A] @ ''h2'' @ [CHR 0x0A]) [cube_atom])"
  by (simp add: cube_lines_def with_lf_def cube_record_def cube_atom_def ev)

lemma wrapped_lines_reset:
  "read_body wrapped_lines reset = Inl (Exc ValueError [InvalidFloat ''1.02.0''] None)"
  by (simp add: wrapped_lines_def ev)

lemma splitlines_wrapped: "splitlines (with_lf wrapped_lines) = wrapped_lines"
  by (simp add: wrapped_lines_def with_lf_def text_defs)

lemma wrapped_file_reset:
  "read_body (file_lines (with_lf wrapped_lines)) (reset\<lparr>filename := f\<rparr>)
     = Inr (cube_record f (''h1'' @ [CHR 0x0A] @ ''h2'' @ [CHR 0x0A]) [cube_atom])"
  by (simp add: wrapped_lines_def with_lf_def cube_record_def cube_atom_def ev)

lemma nonsquare_lines_body:
  "read_body nonsquare_lines (reset\<lparr>filename := f\<rparr>)
     = Inl (Exc ValueError [Text ''Non square voxel shape.''] None)"
  by (simp add: nonsquare_lines_def ev)

lemma nonsquare_file_body:
  "read_body (file_lines (with_lf nonsquare_lines)) (reset\<lparr>filename := f\<rparr>)
     = Inl (Exc ValueError [Text ''Non square voxel shape.''] None)"
  by (simp add: nonsquare_lines_def with_lf_def ev)

lemma reset_filename: "reset\<lparr>filename := PNone\<rparr> = reset"
  by (simp add: reset_def)

lemma inf_lines_reset:
  "read_body inf_lines reset = Inl (Exc ValueError [Text ''Non square voxel shape.''] None)"
  by (simp add: inf_lines_def ev)

lemma negative_count_lines_reset:
  "read_body negative_count_lines reset = Inr (cube_record PNone ''h1h2'' [])"
  by (simp add: negative_count_lines_def cube_record_def ev)

lemma short_name_body:
  "read_body (splitlines ''b.cube'') r = Inl (Exc StopIteration [] None)"
  by (simp add: read_body_def read_header_def next_line_def text_defs)

lemma cube_lines_read:
  "read_iterator cube_lines reset = (cube_record PNone ''h1h2'' [cube_atom], Inr ())"
  by (rule read_iterator_Inr [OF cube_lines_reset])

lemma cube_lines_first_int:
  "first_int cube_lines 2 = Inr 1" "first_int cube_lines 3 = Inr 1"
  "first_int cube_lines 4 = Inr (- 2)" "first_int cube_lines 5 = Inr 1"
  by (simp_all add: first_int_def cube_lines_def ev)

lemma cube_lines_payload: "payload_tokens cube_lines 1 = [''1.0'', ''2.0'']"
  by (simp add: payload_tokens_def cube_lines_def ev eval_nat_numeral)

lemma nonsquare_lines_reset:
  "read_body nonsquare_lines reset = Inl (Exc ValueError [Text ''Non square voxel shape.''] None)"
  using nonsquare_lines_body [of PNone] by (simp only: reset_filename)

lemma nonsquare_step_vector:
  "step_vector nonsquare_lines 0 = Inr [Num 1, Num (1 / 2), Num 0]"
  by (simp add: step_vector_def nonsquare_lines_def ev)

lemma inf_step_vectors:
  "step_vector inf_lines 0 = Inr [PInf, Num 0, Num 0]"
  "step_vector inf_lines 1 = Inr [Num 0, Num 1, Num 0]"
  "step_vector inf_lines 2 = Inr [Num 0, Num 0, Num 1]"
  by (simp_all add: step_vector_def inf_lines_def ev)

lemma negative_count_first_int: "first_int negative_count_lines 2 = Inr (- 1)"
  by (simp add: first_int_def negative_count_lines_def ev)

lemma is_3x3_reset: "is_3x3 (voxel_shape reset)"
  by (simp add: is_3x3_def reset_def)

lemma text_is_no_path:
  "with_lf cube_lines \<noteq> ''a.cube''" "with_lf wrapped_lines \<noteq> ''w.cube''"
  by (simp_all add: with_lf_def cube_lines_def wrapped_lines_def)

lemma read_cube_file:
  "read (one_file p (with_lf cube_lines)) (PStr p) reset
     = (cube_record (PStr p) (''h1'' @ [CHR 0x0A] @ ''h2'' @ [CHR 0x0A]) [cube_atom], Inr ())"
  by (simp add: read_def read_path_def one_file_def read_iterator_Inr [OF cube_file_reset])

lemma read_cube_text:
  assumes "fs (PStr (with_lf cube_lines)) = None"
  shows "read fs (PStr (with_lf cube_lines)) reset
           = (cube_record PNone ''h1h2'' [cube_atom], Inr ())"
    and "read fs (PStr (with_lf cube_lines)) (cube_record f h as)
           = (cube_record f ''h1h2'' (as @ [cube_atom]), Inr ())"
  using assms
  by (simp_all add: read_def read_path_def splitlines_cube
        read_iterator_Inr [OF cube_lines_reset] read_iterator_Inr [OF cube_lines_again])

lemma read_nonsquare_list:
  "read no_files (PList nonsquare_lines) reset
     = (reset, Inl (Exc ValueError [Text ''Could not read'', Val (PList nonsquare_lines)] None))"
  by (simp add: read_def read_path_def no_files_def read_iterator_Inl [OF nonsquare_lines_reset])

lemma read_nonsquare_file:
  "read_path (one_file ''b.cube'' (with_lf nonsquare_lines)) (PStr ''b.cube'') reset = (reset, None)"
  "read (one_file ''b.cube'' (with_lf nonsquare_lines)) (PStr ''b.cube'') reset
     = (reset, Inl (Exc ValueError [Text ''Error reading file''] (Some (Exc StopIteration [] None))))"
  by (simp_all add: read_def read_path_def one_file_def read_iterator_Inl [OF nonsquare_file_body]
        read_iterator_Inl [OF short_name_body])

lemma read_body_keeps_3x3:
  assumes "read_body it r = Inr r'" and "is_3x3 (voxel_shape r)"
  shows "is_3x3 (voxel_shape r')"
proof -
  from assms obtain v0 v1 v2 where
    "voxel_shape r' = [v0, v1, v2]" "length v0 = 3" "length v1 = 3" "length v2 = 3"
    by (rule read_body_step_vectors)
  then show ?thesis by (simp add: is_3x3_def)
qed

subsection \<open>Which exception a read raises\<close>

text \<open>No step of the read but the check of line 163 raises the exception of line 166.\<close>

lemma seq_neq_Inl:
  assumes "m \<noteq> Inl e" and "\<And>x. m = Inr x \<Longrightarrow> f x \<noteq> Inl e"
  shows "seq m f \<noteq> Inl e"
  using assms by (cases m) simp_all

lemma seq_Inl_iff: "seq m f = Inl e \<longleftrightarrow> m = Inl e \<or> (\<exists>x. m = Inr x \<and> f x = Inl e)"
  by (cases m) simp_all

lemma next_line_not_ns: "next_line it \<noteq> Inl non_square_error"
  by (cases it) (simp_all add: next_line_def non_square_error_def)

lemma getitem_not_ns: "getitem xs i \<noteq> Inl non_square_error"
  by (simp add: getitem_def non_square_error_def)

lemma py_int_not_ns: "py_int tok \<noteq> Inl non_square_error"
  by (simp add: py_int_def non_square_error_def split: prod.splits option.splits list.splits)

lemma py_float_not_ns: "py_float tok \<noteq> Inl non_square_error"
  by (simp add: py_float_def non_square_error_def split: prod.splits option.splits)

lemma mapM_not_ns:
  assumes "\<And>x. f x \<noteq> Inl non_square_error"
  shows "mapM f xs \<noteq> Inl non_square_error"
proof (induction xs)
  case Nil
  show ?case by simp
next
  case (Cons x xs)
  show ?case
    unfolding mapM.simps
    by (intro seq_neq_Inl assms Cons.IH) simp
qed

lemma asarray_float_not_ns: "asarray_float toks \<noteq> Inl non_square_error"
  unfolding asarray_float_def by (rule mapM_not_ns) (rule py_float_not_ns)

lemma setitem_not_ns: "setitem xs i v \<noteq> Inl non_square_error"
  by (simp add: setitem_def non_square_error_def)

lemma broadcast_to_not_ns: "broadcast_to n xs \<noteq> Inl non_square_error"
  by (simp add: broadcast_to_def non_square_error_def)

lemma set_row_not_ns: "set_row m i row \<noteq> Inl non_square_error"
  by (auto simp: set_row_def seq_Inl_iff broadcast_to_not_ns)
     (simp add: non_square_error_def)

lemma np_multiply_not_ns: "np_multiply xs ys \<noteq> Inl non_square_error"
  by (simp add: np_multiply_def non_square_error_def)

lemma np_reshape_not_ns: "np_reshape arr shp \<noteq> Inl non_square_error"
  by (simp add: np_reshape_def non_square_error_def)

lemma off_diagonal_any_not_ns: "off_diagonal_any m \<noteq> Inl non_square_error"
  unfolding off_diagonal_any_def
  by (intro seq_neq_Inl broadcast_to_not_ns mapM_not_ns) simp

lemma read_header_not_ns: "read_header it r \<noteq> Inl non_square_error"
  by (auto simp: read_header_def seq_Inl_iff next_line_not_ns)

lemma read_origin_not_ns: "read_origin it r \<noteq> Inl non_square_error"
  by (auto simp: read_origin_def Let_def seq_Inl_iff next_line_not_ns getitem_not_ns
        py_int_not_ns mapM_not_ns py_float_not_ns)

lemma read_axis_not_ns: "read_axis i s \<noteq> Inl non_square_error"
proof (cases s)
  case (fields it r vc)
  show ?thesis
    unfolding read_axis_def Let_def fields prod.case
    by (auto simp: seq_Inl_iff next_line_not_ns getitem_not_ns py_int_not_ns
          asarray_float_not_ns set_row_not_ns setitem_not_ns split: if_splits)
qed

lemma for_each_not_ns:
  assumes "\<And>i s. body i s \<noteq> Inl non_square_error"
  shows "for_each is body s \<noteq> Inl non_square_error"
proof (induction "is" arbitrary: s)
  case Nil
  show ?case by simp
next
  case (Cons i "is")
  show ?case
    unfolding for_each.simps by (intro seq_neq_Inl assms Cons.IH)
qed

lemma read_axes_not_ns: "read_axes it r \<noteq> Inl non_square_error"
  unfolding read_axes_def by (rule for_each_not_ns) (rule read_axis_not_ns)

lemma parse_atom_not_ns: "parse_atom uc l \<noteq> Inl non_square_error"
  by (auto simp: parse_atom_def Let_def seq_Inl_iff getitem_not_ns py_int_not_ns
        py_float_not_ns asarray_float_not_ns np_multiply_not_ns)

lemma read_atom_not_ns: "read_atom i s \<noteq> Inl non_square_error"
proof (cases s)
  case (Pair it r)
  show ?thesis
    unfolding read_atom_def Pair prod.case
    by (auto simp: seq_Inl_iff next_line_not_ns parse_atom_not_ns)
qed

lemma read_atoms_not_ns: "read_atoms n it r \<noteq> Inl non_square_error"
  unfolding read_atoms_def by (rule for_each_not_ns) (rule read_atom_not_ns)

lemma read_voxels_not_ns: "read_voxels it r vc \<noteq> Inl non_square_error"
  by (auto simp: read_voxels_def Let_def seq_Inl_iff asarray_float_not_ns np_reshape_not_ns
        split: if_splits)
     (simp add: non_square_error_def)

lemma setup_grid_ns:
  assumes "setup_grid r vc = Inl non_square_error"
  shows "off_diagonal_any (voxel_shape r) = Inr True"
proof (cases "off_diagonal_any (voxel_shape r)")
  case (Inl e)
  with assms have "e = non_square_error" by (simp add: setup_grid_def)
  with Inl off_diagonal_any_not_ns show ?thesis by blast
next
  case (Inr bad)
  show ?thesis
  proof (cases bad)
    case True
    with Inr show ?thesis by simp
  next
    case False
    have "seq (np_multiply (origin r) (unit_conversion r)) (\<lambda>org.
       let r1 = r\<lparr>origin := org\<rparr>;
           r2 = r1\<lparr>voxels := np_zeros (map nat vc)\<rparr> in
       seq (np_multiply (norm_axis1 (voxel_shape r2)) (unit_conversion r2)) (\<lambda>sc.
       Inr (r2\<lparr>scale := sc\<rparr>))) \<noteq> Inl non_square_error"
      by (auto simp: Let_def seq_Inl_iff np_multiply_not_ns)
    with assms Inr False show ?thesis by (simp add: setup_grid_def)
  qed
qed

lemma read_body_ns:
  assumes "read_body it r = Inl non_square_error"
  obtains it1 r1 it2 r2 n it3 r3 vc where
    "read_header it r = Inr (it1, r1)" "read_origin it1 r1 = Inr (it2, r2, n)"
    "read_axes it2 r2 = Inr (it3, r3, vc)" "off_diagonal_any (voxel_shape r3) = Inr True"
proof -
  from assms read_header_not_ns obtain it1 r1 where
    h: "read_header it r = Inr (it1, r1)" and
    a1: "seq (read_origin it1 r1) (\<lambda>(it2, r2, n).
     seq (read_axes it2 r2) (\<lambda>(it3, r3, vc).
     seq (setup_grid r3 vc) (\<lambda>r4.
     seq (read_atoms n it3 r4) (\<lambda>(it5, r5).
     read_voxels it5 r5 vc)))) = Inl non_square_error"
    unfolding read_body_def by (auto simp: seq_Inl_iff)
  from a1 read_origin_not_ns obtain it2 r2 n where
    o: "read_origin it1 r1 = Inr (it2, r2, n)" and
    a2: "seq (read_axes it2 r2) (\<lambda>(it3, r3, vc).
     seq (setup_grid r3 vc) (\<lambda>r4.
     seq (read_atoms n it3 r4) (\<lambda>(it5, r5).
     read_voxels it5 r5 vc))) = Inl non_square_error"
    by (auto simp: seq_Inl_iff)
  from a2 read_axes_not_ns obtain it3 r3 vc where
    a: "read_axes it2 r2 = Inr (it3, r3, vc)" and
    a3: "seq (setup_grid r3 vc) (\<lambda>r4.
     seq (read_atoms n it3 r4) (\<lambda>(it5, r5).
     read_voxels it5 r5 vc)) = Inl non_square_error"
    by (auto simp: seq_Inl_iff)
  have "setup_grid r3 vc = Inl non_square_error"
  proof (rule ccontr)
    assume n: "setup_grid r3 vc \<noteq> Inl non_square_error"
    with a3 obtain r4 where
      "seq (read_atoms n it3 r4) (\<lambda>(it5, r5). read_voxels it5 r5 vc) = Inl non_square_error"
      by (auto simp: seq_Inl_iff)
    with read_atoms_not_ns read_voxels_not_ns show False
      by (auto simp: seq_Inl_iff)
  qed
  then have "off_diagonal_any (voxel_shape r3) = Inr True" by (rule setup_grid_ns)
  with h o a show thesis by (rule that)
qed

lemma head_step_vectors:
  assumes "read_header it r = Inr (it1, r1)" and "read_origin it1 r1 = Inr (it2, r2, n)"
    and "read_axes it2 r2 = Inr (it3, r3, vc)" and "is_3x3 (voxel_shape r)"
  obtains v0 v1 v2 where
    "step_vector it 0 = Inr v0" "step_vector it 1 = Inr v1" "step_vector it 2 = Inr v2"
    "voxel_shape r3 = [v0, v1, v2]"
proof -
  from assms(1) obtain l1 l2 where H: "it = l1 # l2 # it1" "r1 = r\<lparr>header := l1 @ l2\<rparr>"
    by (auto simp: read_header_Inr)
  from read_origin_Inr [OF assms(2)] obtain l3 org0 where
    O: "it1 = l3 # it2" "r2 = r1\<lparr>origin := org0\<rparr>"
    by blast
  from read_axes_Inr [OF assms(3)] obtain a0 a1 a2 n0 n1 n2 w0 w1 w2 v0 v1 v2 where
    A: "it2 = a0 # a1 # a2 # it3"
     "seq (getitem (py_split a0) 0) py_int = Inr n0"
     "seq (getitem (py_split a1) 0) py_int = Inr n1"
     "seq (getitem (py_split a2) 0) py_int = Inr n2"
     "vc = [\<bar>n0\<bar>, \<bar>n1\<bar>, \<bar>n2\<bar>]"
     "2 < length (unit_conversion r2)" "2 < length (voxel_shape r2)"
     "asarray_float (slice 1 4 (py_split a0)) = Inr w0"
     "asarray_float (slice 1 4 (py_split a1)) = Inr w1"
     "asarray_float (slice 1 4 (py_split a2)) = Inr w2"
     "broadcast_to (length (voxel_shape r2 ! 0)) w0 = Inr v0"
     "broadcast_to (length (voxel_shape r2 ! 1)) w1 = Inr v1"
     "broadcast_to (length (voxel_shape r2 ! 2)) w2 = Inr v2"
     "r3 = r2\<lparr>unit_conversion := (unit_conversion r2)
                  [0 := if n0 < 0 then Num 1 else BOHR_TO_ANGSTROM,
                   1 := if n1 < 0 then Num 1 else BOHR_TO_ANGSTROM,
                   2 := if n2 < 0 then Num 1 else BOHR_TO_ANGSTROM],
               voxel_shape := (voxel_shape r2)[0 := v0, 1 := v1, 2 := v2]\<rparr>"
    by blast
  note w = A(8-10)
  have r2: "voxel_shape r2 = voxel_shape r" using H(2) O(2) by simp
  have it: "it = l1 # l2 # l3 # a0 # a1 # a2 # it3" using H(1) O(1) A(1) by simp
  note rows = is_3x3_rows [OF assms(4)]
  from rows(1) obtain x y z where m: "voxel_shape r = [x, y, z]" by (rule length_3E)
  have upd: "(voxel_shape r)[0 := v0, 1 := v1, 2 := v2] = [v0, v1, v2]"
    by (simp add: m)
  have b3: "broadcast_to 3 w0 = Inr v0" "broadcast_to 3 w1 = Inr v1" "broadcast_to 3 w2 = Inr v2"
    using A(11-13) rows by (simp_all add: r2)
  show thesis
  proof (rule that [of v0 v1 v2])
    show "step_vector it 0 = Inr v0" by (simp only: it step_vector_head w seq_simps b3)
    show "step_vector it 1 = Inr v1" by (simp only: it step_vector_head w seq_simps b3)
    show "step_vector it 2 = Inr v2" by (simp only: it step_vector_head w seq_simps b3)
    show "voxel_shape r3 = [v0, v1, v2]"
      using upd by (simp add: A(14) r2)
  qed
qed

subsection \<open>More evaluation\<close>

lemma py_float_out_of_range:
  "py_float ''1e400'' = Inr PInf" "py_float ''-1e400'' = Inr NInf"
  "py_float ''1e-400'' = Inr (Num 0)"
  by (simp_all add: number_defs to_float64_def)

lemma zero_count_read: "snd (read_iterator zero_count_lines reset) = Inr ()"
  by (simp add: read_iterator_def zero_count_lines_def ev)

lemma zero_count_first_int: "first_int zero_count_lines 3 = Inr 0"
  by (simp add: first_int_def zero_count_lines_def ev)

lemma cube_step_vectors:
  "step_vector cube_lines 0 = Inr [Num 1, Num 0, Num 0]"
  "step_vector cube_lines 1 = Inr [Num 0, Num 1, Num 0]"
  "step_vector cube_lines 2 = Inr [Num 0, Num 0, Num 1]"
  by (simp_all add: step_vector_def cube_lines_def ev)

lemma merged_lines_reset:
  "read_body merged_lines reset
     = Inr \<lparr>filename = PNone, header = ''h1h2'', origin = [Num 0, Num 0, Num 0],
            voxel_shape = [[Num 1, Num 0, Num 0], [Num 0, Num 1, Num 0], [Num 0, Num 0, Num 1]],
            unit_conversion = [Num 1, Num 1, Num 1], scale = [Num 1, Num 1, Num 1],
            atoms = [], voxels = \<lparr>shape = [1, 1, 1], data = [Num 12]\<rparr>\<rparr>"
  by (simp add: merged_lines_def ev)

lemma merged_lines_tokens:
  "line_tokens merged_lines 0 = [''1'', ''2'']" "payload_tokens merged_lines 0 = [''12'']"
  by (simp_all add: line_tokens_def payload_tokens_def merged_lines_def text_defs eval_nat_numeral)

lemma merged_lines_first_int:
  "first_int merged_lines 2 = Inr 0" "first_int merged_lines 3 = Inr (- 1)"
  "first_int merged_lines 4 = Inr (- 1)" "first_int merged_lines 5 = Inr (- 1)"
  by (simp_all add: first_int_def merged_lines_def ev)

lemma splitlines_merged: "splitlines (with_lf merged_lines) = merged_lines"
  by (simp add: merged_lines_def with_lf_def text_defs)

lemma merged_file_body:
  "read_body (file_lines (with_lf merged_lines)) reset
     = Inl (Exc ValueError [NoReshape 2 [1, 1, 1]] None)"
  by (simp add: merged_lines_def with_lf_def ev)

text \<open>With the tokens of the payload as line 194 cuts them, after the lines are joined:
  a successful read has as many tokens as the grid has voxels, and they fill the grid in
  row-major order.\<close>

lemma joined_payload_fills_grid:
  assumes "snd (read_iterator it r) = Inr ()"
  shows "\<exists>n nx ny nz.
       first_int it 2 = Inr n \<and> first_int it 3 = Inr nx
     \<and> first_int it 4 = Inr ny \<and> first_int it 5 = Inr nz
     \<and> length (payload_tokens it n) = nat \<bar>nx\<bar> * nat \<bar>ny\<bar> * nat \<bar>nz\<bar>
     \<and> voxel_count (fst (read_iterator it r)) = [nat \<bar>nx\<bar>, nat \<bar>ny\<bar>, nat \<bar>nz\<bar>]
     \<and> map py_float (payload_tokens it n) = map Inr (data (voxels (fst (read_iterator it r))))
     \<and> (\<forall>i j k. i < nat \<bar>nx\<bar> \<longrightarrow> j < nat \<bar>ny\<bar> \<longrightarrow> k < nat \<bar>nz\<bar> \<longrightarrow>
            py_float (payload_tokens it n ! ((i * nat \<bar>ny\<bar> + j) * nat \<bar>nz\<bar> + k))
              = Inr (voxel_at (voxels (fst (read_iterator it r))) i j k))"
proof -
  from read_iterator_success [OF assms] obtain l1 l2 l3 a0 a1 a2 ls rest n n0 n1 n2
      w0 w1 w2 v0 v1 v2 org sc as arr where
    it: "it = l1 # l2 # l3 # a0 # a1 # a2 # ls @ rest" and
    n: "seq (getitem (py_split l3) 0) py_int = Inr n"
       "seq (getitem (py_split a0) 0) py_int = Inr n0"
       "seq (getitem (py_split a1) 0) py_int = Inr n1"
       "seq (getitem (py_split a2) 0) py_int = Inr n2" and
    ls: "length ls = nat n" and
    arr: "asarray_float (findall_nonspace (concat rest)) = Inr arr"
         "length arr = nat \<bar>n0\<bar> * nat \<bar>n1\<bar> * nat \<bar>n2\<bar>" and
    r': "fst (read_iterator it r) = \<lparr>filename = filename r, header = l1 @ l2, origin = org,
           voxel_shape = (voxel_shape r)[0 := v0, 1 := v1, 2 := v2],
           unit_conversion = (unit_conversion r)
                  [0 := if n0 < 0 then Num 1 else BOHR_TO_ANGSTROM,
                   1 := if n1 < 0 then Num 1 else BOHR_TO_ANGSTROM,
                   2 := if n2 < 0 then Num 1 else BOHR_TO_ANGSTROM],
           scale = sc, atoms = atoms r @ as,
           voxels = \<lparr>shape = [nat \<bar>n0\<bar>, nat \<bar>n1\<bar>, nat \<bar>n2\<bar>], data = arr\<rparr>\<rparr>"
    by (rule read_body_Inr)
  let ?toks = "payload_tokens it n"
  have toks: "?toks = findall_nonspace (concat rest)"
    using it ls by (simp only: payload_tokens_head)
  have fi: "first_int it 2 = Inr n" "first_int it 3 = Inr n0"
    "first_int it 4 = Inr n1" "first_int it 5 = Inr n2"
    using it n by (simp_all only: first_int_head)
  have m: "map py_float ?toks = map Inr arr"
    using arr(1) by (simp add: toks asarray_float_def mapM_Inr)
  from m have "length ?toks = length arr" by (rule map_eq_imp_length_eq)
  then have len: "length ?toks = nat \<bar>n0\<bar> * nat \<bar>n1\<bar> * nat \<bar>n2\<bar>"
    using arr(2) by simp
  have vc: "voxel_count (fst (read_iterator it r)) = [nat \<bar>n0\<bar>, nat \<bar>n1\<bar>, nat \<bar>n2\<bar>]"
    by (simp add: r' voxel_count_def)
  have d: "data (voxels (fst (read_iterator it r))) = arr"
    by (simp add: r')
  have rm: "py_float (?toks ! ((i * nat \<bar>n1\<bar> + j) * nat \<bar>n2\<bar> + k))
              = Inr (voxel_at (voxels (fst (read_iterator it r))) i j k)"
    if "i < nat \<bar>n0\<bar>" "j < nat \<bar>n1\<bar>" "k < nat \<bar>n2\<bar>" for i j k
  proof -
    have "i * nat \<bar>n1\<bar> + j < nat \<bar>n0\<bar> * nat \<bar>n1\<bar>"
      using that(1,2) by (rule row_major_index_bound)
    then have "(i * nat \<bar>n1\<bar> + j) * nat \<bar>n2\<bar> + k < nat \<bar>n0\<bar> * nat \<bar>n1\<bar> * nat \<bar>n2\<bar>"
      using that(3) by (rule row_major_index_bound)
    then have "(i * nat \<bar>n1\<bar> + j) * nat \<bar>n2\<bar> + k < length ?toks"
      using len by simp
    from map_eq_nth [OF m this] show ?thesis
      by (simp add: voxel_at_def r')
  qed
  have md: "map py_float ?toks = map Inr (data (voxels (fst (read_iterator it r))))"
    using m d by simp
  have rm': "\<forall>i j k. i < nat \<bar>n0\<bar> \<longrightarrow> j < nat \<bar>n1\<bar> \<longrightarrow> k < nat \<bar>n2\<bar> \<longrightarrow>
            py_float (?toks ! ((i * nat \<bar>n1\<bar> + j) * nat \<bar>n2\<bar> + k))
              = Inr (voxel_at (voxels (fst (read_iterator it r))) i j k)"
    using rm by blast
  show ?thesis
    apply (rule exI [of _ n], rule exI [of _ n0], rule exI [of _ n1], rule exI [of _ n2])
    apply (intro conjI)
           apply (rule fi(1))
          apply (rule fi(2))
         apply (rule fi(3))
        apply (rule fi(4))
       apply (rule len)
      apply (rule vc)
     apply (rule md)
    apply (rule rm')
    done
qed

subsection \<open>The claims\<close>

text \<open>
  C1. For every stream of lines on which \<^verbatim>\<open>read_iterator\<close> fails, whatever the failure
  is (a missing line, a malformed token, a voxel shape that is not diagonal, a wrong
  number of voxels), the exception raised is a \<^verbatim>\<open>ValueError\<close> that carries the cause (its
  arguments after the text, the cause itself as context), and afterwards every attribute
  has its default value, which is the state of an object constructed without a source:
  no file name, an empty header, the origin zero, the default voxel shape, unit
  conversion and scale of ones, no atoms, a grid without voxels.
\<close>

theorem read_iterator_failure_resets:
  assumes "snd (read_iterator it r) = Inl err"
  shows "(\<exists>cause. read_body it r = Inl cause \<and>
            err = Exc ValueError (Text ''Error reading file'' # exc_args cause) (Some cause))
       \<and> fst (read_iterator it r) = fst (init fs PNone)
       \<and> fst (read_iterator it r) =
           \<lparr>filename = PNone, header = [], origin = [Num 0, Num 0, Num 0],
            voxel_shape = [[Num 1, Num 1, Num 1], [Num 1, Num 1, Num 1], [Num 1, Num 1, Num 1]],
            unit_conversion = [Num 1, Num 1, Num 1], scale = [Num 1, Num 1, Num 1],
            atoms = [], voxels = \<lparr>shape = [0], data = []\<rparr>\<rparr>"
proof (cases "read_body it r")
  case (Inl cause)
  with assms have "err = Exc ValueError (Text ''Error reading file'' # exc_args cause) (Some cause)"
    by (simp add: read_iterator_def)
  moreover have "fst (read_iterator it r) = reset"
    using Inl by (simp add: read_iterator_def)
  ultimately show ?thesis
    using Inl by (simp add: init_def) (simp add: reset_def np_zeros_def)
next
  case (Inr r')
  with assms show ?thesis by (simp add: read_iterator_def)
qed

theorem read_iterator_failure_resets_witness:
  "snd (read_iterator truncated_lines reset)
     = Inl (Exc ValueError [Text ''Error reading file''] (Some (Exc StopIteration [] None)))
   \<and> atoms (fst (read_iterator truncated_lines reset)) = []
   \<and> unit_conversion (fst (read_iterator truncated_lines reset)) = [Num 1, Num 1, Num 1]"
proof -
  have h: "snd (read_iterator truncated_lines reset)
     = Inl (Exc ValueError [Text ''Error reading file''] (Some (Exc StopIteration [] None)))"
    by (simp add: read_iterator_Inl [OF truncated_lines_body])
  from read_iterator_failure_resets [OF h] show ?thesis
    using h by simp
qed

text \<open>
  C2. A second read does not discard what the first one left. Reading the file
  \<^verbatim>\<open>a.cube\<close> and then the same cube as a text leaves two atoms and the file name
  \<^verbatim>\<open>a.cube\<close>, where reading the text on a fresh object leaves one atom and no file name:
  \<^verbatim>\<open>read_iterator\<close> appends to \<^verbatim>\<open>self.atoms\<close>, and only a read from a path assigns
  \<^verbatim>\<open>self.filename\<close>.
\<close>

theorem reread_keeps_atoms_and_filename:
  "read (one_file ''a.cube'' (with_lf cube_lines)) (PStr ''a.cube'') reset
     = (cube_record (PStr ''a.cube'') (''h1'' @ [CHR 0x0A] @ ''h2'' @ [CHR 0x0A]) [cube_atom], Inr ())
   \<and> read (one_file ''a.cube'' (with_lf cube_lines)) (PStr (with_lf cube_lines))
        (fst (read (one_file ''a.cube'' (with_lf cube_lines)) (PStr ''a.cube'') reset))
     = (cube_record (PStr ''a.cube'') ''h1h2'' [cube_atom, cube_atom], Inr ())
   \<and> read (one_file ''a.cube'' (with_lf cube_lines)) (PStr (with_lf cube_lines)) reset
     = (cube_record PNone ''h1h2'' [cube_atom], Inr ())
   \<and> atom_count (cube_record (PStr ''a.cube'') ''h1h2'' [cube_atom, cube_atom]) = 2
   \<and> atom_count (cube_record PNone ''h1h2'' [cube_atom]) = 1
   \<and> filename (cube_record (PStr ''a.cube'') ''h1h2'' [cube_atom, cube_atom]) = PStr ''a.cube''
   \<and> filename (cube_record PNone ''h1h2'' [cube_atom]) = PNone"
proof -
  have n: "one_file ''a.cube'' (with_lf cube_lines) (PStr (with_lf cube_lines)) = None"
    by (simp add: one_file_def text_is_no_path)
  note t = read_cube_text [where fs = "one_file ''a.cube'' (with_lf cube_lines)", OF n]
  have a: "read (one_file ''a.cube'' (with_lf cube_lines)) (PStr ''a.cube'') reset
     = (cube_record (PStr ''a.cube'') (''h1'' @ [CHR 0x0A] @ ''h2'' @ [CHR 0x0A]) [cube_atom], Inr ())"
    by (rule read_cube_file)
  have b: "read (one_file ''a.cube'' (with_lf cube_lines)) (PStr (with_lf cube_lines))
        (fst (read (one_file ''a.cube'' (with_lf cube_lines)) (PStr ''a.cube'') reset))
     = (cube_record (PStr ''a.cube'') ''h1h2'' [cube_atom, cube_atom], Inr ())"
    by (simp only: a fst_conv t(2) append.simps)
  have c: "atom_count (cube_record (PStr ''a.cube'') ''h1h2'' [cube_atom, cube_atom]) = 2
   \<and> atom_count (cube_record PNone ''h1h2'' [cube_atom]) = 1
   \<and> filename (cube_record (PStr ''a.cube'') ''h1h2'' [cube_atom, cube_atom]) = PStr ''a.cube''
   \<and> filename (cube_record PNone ''h1h2'' [cube_atom]) = PNone"
    by (simp add: atom_count_def cube_record_def)
  from a b t(1) c show ?thesis by (intro conjI) blast+
qed

text \<open>
  C3. \<^verbatim>\<open>read\<close> drops the failure of a parse that comes from an iterable or from a path.
  A list of lines is iterable, and the parse of this one fails on its voxel shape:
  \<^verbatim>\<open>read\<close> raises the input-kind error, which carries the source and no cause. The same
  lines in a file that exists: the failure is dropped, the name of the file is then read
  as the text of a cube, and the error raised carries the cause of that second failure,
  the missing second line.
\<close>

theorem read_drops_cause:
  "py_iter (PList nonsquare_lines) = Some nonsquare_lines
   \<and> read_body nonsquare_lines reset = Inl (Exc ValueError [Text ''Non square voxel shape.''] None)
   \<and> read no_files (PList nonsquare_lines) reset
       = (reset, Inl (Exc ValueError [Text ''Could not read'', Val (PList nonsquare_lines)] None))
   \<and> one_file ''b.cube'' (with_lf nonsquare_lines) (PStr ''b.cube'') = Some (with_lf nonsquare_lines)
   \<and> read_body (file_lines (with_lf nonsquare_lines)) (reset\<lparr>filename := PStr ''b.cube''\<rparr>)
       = Inl (Exc ValueError [Text ''Non square voxel shape.''] None)
   \<and> read (one_file ''b.cube'' (with_lf nonsquare_lines)) (PStr ''b.cube'') reset
       = (reset, Inl (Exc ValueError [Text ''Error reading file'']
                       (Some (Exc StopIteration [] None))))"
  by (simp add: nonsquare_lines_reset read_nonsquare_list one_file_def nonsquare_file_body
        read_nonsquare_file)

text \<open>
  C4. The properties \<^verbatim>\<open>voxel_count\<close>, \<^verbatim>\<open>voxel_total\<close> and \<^verbatim>\<open>atom_count\<close> are total, but
  \<^verbatim>\<open>max_voxel_val\<close> is not a total function of the state: on the default object, whose
  grid has no voxels, it raises a \<^verbatim>\<open>ValueError\<close>.
\<close>

theorem max_voxel_val_default_raises:
  "max_voxel_val (fst (init fs PNone)) =
     Inl (Exc ValueError
            [Text ''zero-size array to reduction operation maximum which has no identity''] None)
   \<and> voxel_count (fst (init fs PNone)) = [0]
   \<and> voxel_total (fst (init fs PNone)) = 0
   \<and> atom_count (fst (init fs PNone)) = 0"
  by (simp add: init_def reset_def max_voxel_val_def voxel_count_def voxel_total_def
        atom_count_def np_zeros_def)

text \<open>
  C5. In a text, a line break between two tokens of the payload is not a separator: the
  lines of \<^verbatim>\<open>splitlines\<close> have lost their ends and are joined with nothing between
  them. The cube whose two voxels stand on one line is read; the same cube as a text
  with a voxel on each line fails on the token \<^verbatim>\<open>1.02.0\<close>; the same text as a file,
  whose lines keep their line feeds, is read to the same grid.
\<close>

theorem wrapped_text_payload_fails:
  "read no_files (PStr (with_lf cube_lines)) reset
     = (cube_record PNone ''h1h2'' [cube_atom], Inr ())
   \<and> read no_files (PStr (with_lf wrapped_lines)) reset
     = (reset, Inl (Exc ValueError [Text ''Error reading file'', InvalidFloat ''1.02.0'']
                     (Some (Exc ValueError [InvalidFloat ''1.02.0''] None))))
   \<and> read (one_file ''w.cube'' (with_lf wrapped_lines)) (PStr ''w.cube'') reset
     = (cube_record (PStr ''w.cube'') (''h1'' @ [CHR 0x0A] @ ''h2'' @ [CHR 0x0A]) [cube_atom], Inr ())
   \<and> data (voxels (cube_record f h as)) = [Num 1, Num 2]"
proof -
  have n: "no_files (PStr (with_lf cube_lines)) = None" by (simp add: no_files_def)
  have "read no_files (PStr (with_lf wrapped_lines)) reset
     = (reset, Inl (Exc ValueError [Text ''Error reading file'', InvalidFloat ''1.02.0'']
                     (Some (Exc ValueError [InvalidFloat ''1.02.0''] None))))"
    by (simp add: read_def read_path_def no_files_def splitlines_wrapped
          read_iterator_Inl [OF wrapped_lines_reset])
  moreover have "read (one_file ''w.cube'' (with_lf wrapped_lines)) (PStr ''w.cube'') reset
     = (cube_record (PStr ''w.cube'') (''h1'' @ [CHR 0x0A] @ ''h2'' @ [CHR 0x0A]) [cube_atom], Inr ())"
    by (simp add: read_def read_path_def one_file_def read_iterator_Inr [OF wrapped_file_reset])
  moreover have "data (voxels (cube_record f h as)) = [Num 1, Num 2]"
    by (simp add: cube_record_def)
  ultimately show ?thesis
    using read_cube_text(1) [where fs = no_files, OF n] by (intro conjI)
qed

text \<open>
  C6. A stream whose lines have no line ends is read with a number of tokens that is
  not the number of voxels: the head declares a grid of one voxel, the payload has the
  two tokens \<^verbatim>\<open>1\<close> and \<^verbatim>\<open>2\<close> on a line each, and the read succeeds with the single
  voxel 12.0, from a list of lines and from the text that \<^verbatim>\<open>read\<close> splits. With the line
  feeds kept, as a file gives them, the same lines fail on the two tokens.
\<close>

theorem merged_payload_accepted:
  "first_int merged_lines 2 = Inr 0
   \<and> first_int merged_lines 3 = Inr (- 1)
   \<and> first_int merged_lines 4 = Inr (- 1)
   \<and> first_int merged_lines 5 = Inr (- 1)
   \<and> line_tokens merged_lines 0 = [''1'', ''2'']
   \<and> snd (read_iterator merged_lines reset) = Inr ()
   \<and> voxel_count (fst (read_iterator merged_lines reset)) = [1, 1, 1]
   \<and> data (voxels (fst (read_iterator merged_lines reset))) = [Num 12]
   \<and> read no_files (PStr (with_lf merged_lines)) reset = read_iterator merged_lines reset
   \<and> snd (read_iterator (file_lines (with_lf merged_lines)) reset)
       = Inl (Exc ValueError [Text ''Error reading file'', NoReshape 2 [1, 1, 1]]
               (Some (Exc ValueError [NoReshape 2 [1, 1, 1]] None)))"
proof -
  have a: "snd (read_iterator merged_lines reset) = Inr ()
   \<and> voxel_count (fst (read_iterator merged_lines reset)) = [1, 1, 1]
   \<and> data (voxels (fst (read_iterator merged_lines reset))) = [Num 12]"
    by (simp add: read_iterator_Inr [OF merged_lines_reset] voxel_count_def)
  have b: "read no_files (PStr (with_lf merged_lines)) reset = read_iterator merged_lines reset"
    by (simp add: read_def read_path_def no_files_def splitlines_merged)
  have c: "snd (read_iterator (file_lines (with_lf merged_lines)) reset)
       = Inl (Exc ValueError [Text ''Error reading file'', NoReshape 2 [1, 1, 1]]
               (Some (Exc ValueError [NoReshape 2 [1, 1, 1]] None)))"
    by (simp add: read_iterator_Inl [OF merged_file_body])
  from a b c merged_lines_first_int merged_lines_tokens(1) show ?thesis
    by (intro conjI) blast+
qed

text \<open>
  C7. After every successful read, the unit conversion of each axis is one of two values:
  exactly 1.0 when the voxel count declared for the axis is negative, exactly the
  constant 5.29177210903 / 10.0 when it is not negative (zero included); and the voxel
  count kept for the axis is the absolute value of the declared one.
\<close>

theorem unit_conversion_by_sign:
  assumes "snd (read_iterator it r) = Inr ()" and "i < 3"
  shows "\<exists>n. first_int it (3 + i) = Inr n
     \<and> unit_conversion (fst (read_iterator it r)) ! i
         = (if n < 0 then Num 1 else Num (5.29177210903 / 10.0))
     \<and> (unit_conversion (fst (read_iterator it r)) ! i = Num 1
          \<or> unit_conversion (fst (read_iterator it r)) ! i = Num (5.29177210903 / 10.0))
     \<and> voxel_count (fst (read_iterator it r)) ! i = nat \<bar>n\<bar>"
proof -
  from read_iterator_success [OF assms(1)] obtain l1 l2 l3 a0 a1 a2 ls rest n n0 n1 n2
      w0 w1 w2 v0 v1 v2 org sc as arr where
    it: "it = l1 # l2 # l3 # a0 # a1 # a2 # ls @ rest" and
    n: "seq (getitem (py_split a0) 0) py_int = Inr n0"
       "seq (getitem (py_split a1) 0) py_int = Inr n1"
       "seq (getitem (py_split a2) 0) py_int = Inr n2" and
    len: "2 < length (unit_conversion r)" and
    r': "fst (read_iterator it r) = \<lparr>filename = filename r, header = l1 @ l2, origin = org,
           voxel_shape = (voxel_shape r)[0 := v0, 1 := v1, 2 := v2],
           unit_conversion = (unit_conversion r)
                  [0 := if n0 < 0 then Num 1 else BOHR_TO_ANGSTROM,
                   1 := if n1 < 0 then Num 1 else BOHR_TO_ANGSTROM,
                   2 := if n2 < 0 then Num 1 else BOHR_TO_ANGSTROM],
           scale = sc, atoms = atoms r @ as,
           voxels = \<lparr>shape = [nat \<bar>n0\<bar>, nat \<bar>n1\<bar>, nat \<bar>n2\<bar>], data = arr\<rparr>\<rparr>"
    by (rule read_body_Inr)
  from len have len': "unit_conversion r \<noteq> []" "Suc 0 < length (unit_conversion r)"
    by auto
  from assms(2) consider "i = 0" | "i = 1" | "i = 2" by linarith
  then show ?thesis
  proof cases
    case 1
    have "first_int it 3 = Inr n0" using it n(1) by (simp only: first_int_head)
    then show ?thesis using 1 len' by (simp add: r' voxel_count_def BOHR_TO_ANGSTROM_def)
  next
    case 2
    have "first_int it 4 = Inr n1" using it n(2) by (simp only: first_int_head)
    then show ?thesis using 2 len len' by (simp add: r' voxel_count_def BOHR_TO_ANGSTROM_def)
  next
    case 3
    have "first_int it 5 = Inr n2" using it n(3) by (simp only: first_int_head)
    then show ?thesis using 3 len by (simp add: r' voxel_count_def BOHR_TO_ANGSTROM_def)
  qed
qed

theorem unit_conversion_by_sign_witness:
  "snd (read_iterator cube_lines reset) = Inr () \<and> (1::nat) < 3 \<and> (0::nat) < 3
   \<and> first_int cube_lines (3 + 1) = Inr (- 2)
   \<and> unit_conversion (fst (read_iterator cube_lines reset)) ! 1 = Num 1
   \<and> voxel_count (fst (read_iterator cube_lines reset)) ! 1 = 2
   \<and> first_int cube_lines (3 + 0) = Inr 1
   \<and> unit_conversion (fst (read_iterator cube_lines reset)) ! 0 = Num (5.29177210903 / 10.0)
   \<and> voxel_count (fst (read_iterator cube_lines reset)) ! 0 = 1
   \<and> snd (read_iterator zero_count_lines reset) = Inr ()
   \<and> first_int zero_count_lines (3 + 0) = Inr 0
   \<and> unit_conversion (fst (read_iterator zero_count_lines reset)) ! 0
       = Num (5.29177210903 / 10.0)
   \<and> voxel_count (fst (read_iterator zero_count_lines reset)) ! 0 = 0
   \<and> Num (5.29177210903 / 10.0) \<noteq> Num 1"
proof -
  have h: "snd (read_iterator cube_lines reset) = Inr ()" by (simp add: cube_lines_read)
  have z: "snd (read_iterator zero_count_lines reset) = Inr ()" by (rule zero_count_read)
  have i1: "(1::nat) < 3" and i0: "(0::nat) < 3" by simp_all
  from unit_conversion_by_sign [OF h i1] have a:
    "unit_conversion (fst (read_iterator cube_lines reset)) ! 1 = Num 1
     \<and> voxel_count (fst (read_iterator cube_lines reset)) ! 1 = 2"
    by (simp add: cube_lines_first_int)
  from unit_conversion_by_sign [OF h i0] have b:
    "unit_conversion (fst (read_iterator cube_lines reset)) ! 0 = Num (5.29177210903 / 10.0)
     \<and> voxel_count (fst (read_iterator cube_lines reset)) ! 0 = 1"
    by (simp add: cube_lines_first_int)
  from unit_conversion_by_sign [OF z i0] have c:
    "unit_conversion (fst (read_iterator zero_count_lines reset)) ! 0 = Num (5.29177210903 / 10.0)
     \<and> voxel_count (fst (read_iterator zero_count_lines reset)) ! 0 = 0"
    by (simp add: zero_count_first_int)
  from h z a b c show ?thesis
    by (simp add: cube_lines_first_int zero_count_first_int)
qed

text \<open>
  C8 (amended). On an object whose \<^verbatim>\<open>voxel_shape\<close> is 3 by 3, as \<^verbatim>\<open>reset\<close> and every
  successful read leave it, a stream whose three step vectors have an entry off the
  diagonal that is not zero always fails, whatever else it holds; and a stream whose
  step vectors are diagonal with finite entries on the diagonal passes the check: its
  read never raises the exception for voxels that are not square.
\<close>

theorem non_diagonal_fails:
  "(is_3x3 (voxel_shape r) \<and> i < 3 \<and> j < 3 \<and> i \<noteq> j
      \<and> step_vector it i = Inr row \<and> row ! j \<noteq> Num 0
      \<longrightarrow> (\<exists>e. snd (read_iterator it r) = Inl e))
   \<and> (is_3x3 (voxel_shape r)
      \<and> step_vector it 0 = Inr [Num a, Num 0, Num 0]
      \<and> step_vector it 1 = Inr [Num 0, Num b, Num 0]
      \<and> step_vector it 2 = Inr [Num 0, Num 0, Num c]
      \<longrightarrow> read_body it r \<noteq> Inl non_square_error
        \<and> snd (read_iterator it r)
            \<noteq> Inl (Exc ValueError (Text ''Error reading file'' # exc_args non_square_error)
                     (Some non_square_error)))"
proof (intro conjI impI)
  assume h: "is_3x3 (voxel_shape r) \<and> i < 3 \<and> j < 3 \<and> i \<noteq> j
      \<and> step_vector it i = Inr row \<and> row ! j \<noteq> Num 0"
  show "\<exists>e. snd (read_iterator it r) = Inl e"
  proof (cases "snd (read_iterator it r)")
    case (Inl e)
    then show ?thesis by blast
  next
    case (Inr u)
    from read_iterator_success [OF Inr] h obtain v0 v1 v2 where
      sv: "step_vector it 0 = Inr v0" "step_vector it 1 = Inr v1" "step_vector it 2 = Inr v2" and
      od: "off_diagonal_any [v0, v1, v2] = Inr False" and
      len: "length v0 = 3" "length v1 = 3" "length v2 = 3"
      by (blast elim: read_body_step_vectors)
    from h have ij: "i < 3" "j < 3" "i \<noteq> j" by simp_all
    from off_diagonal_zero [OF od len ij] have z: "[v0, v1, v2] ! i ! j = Num 0" .
    from ij(1) consider "i = 0" | "i = 1" | "i = 2" by linarith
    then have "row = [v0, v1, v2] ! i"
      using h sv by cases simp_all
    with z h show ?thesis by simp
  qed
next
  assume h: "is_3x3 (voxel_shape r)
      \<and> step_vector it 0 = Inr [Num a, Num 0, Num 0]
      \<and> step_vector it 1 = Inr [Num 0, Num b, Num 0]
      \<and> step_vector it 2 = Inr [Num 0, Num 0, Num c]"
  show body: "read_body it r \<noteq> Inl non_square_error"
  proof
    assume "read_body it r = Inl non_square_error"
    then obtain it1 r1 it2 r2 n it3 r3 vc where
      s: "read_header it r = Inr (it1, r1)" "read_origin it1 r1 = Inr (it2, r2, n)"
         "read_axes it2 r2 = Inr (it3, r3, vc)" and
      bad: "off_diagonal_any (voxel_shape r3) = Inr True"
      by (rule read_body_ns)
    from h have "is_3x3 (voxel_shape r)" by simp
    with s obtain v0 v1 v2 where
      "step_vector it 0 = Inr v0" "step_vector it 1 = Inr v1" "step_vector it 2 = Inr v2"
      "voxel_shape r3 = [v0, v1, v2]"
      by (rule head_step_vectors)
    with h have "voxel_shape r3 = [[Num a, Num 0, Num 0], [Num 0, Num b, Num 0], [Num 0, Num 0, Num c]]"
      by simp
    with bad show False
      by (simp add: off_diagonal_any_3x3 nonzero_fmul_zero)
  qed
  show "snd (read_iterator it r)
            \<noteq> Inl (Exc ValueError (Text ''Error reading file'' # exc_args non_square_error)
                     (Some non_square_error))"
  proof (cases "read_body it r")
    case (Inl e)
    with body have "e \<noteq> non_square_error" by simp
    with Inl show ?thesis by (simp add: read_iterator_def)
  next
    case (Inr r')
    then show ?thesis by (simp add: read_iterator_def)
  qed
qed

theorem non_diagonal_fails_witness:
  "is_3x3 (voxel_shape reset) \<and> (0::nat) < 3 \<and> (1::nat) < 3 \<and> (0::nat) \<noteq> 1
   \<and> step_vector nonsquare_lines 0 = Inr [Num 1, Num (1 / 2), Num 0]
   \<and> [Num 1, Num (1 / 2), Num 0] ! 1 \<noteq> Num 0
   \<and> snd (read_iterator nonsquare_lines reset)
       = Inl (Exc ValueError [Text ''Error reading file'', Text ''Non square voxel shape.'']
               (Some (Exc ValueError [Text ''Non square voxel shape.''] None)))
   \<and> step_vector cube_lines 0 = Inr [Num 1, Num 0, Num 0]
   \<and> step_vector cube_lines 1 = Inr [Num 0, Num 1, Num 0]
   \<and> step_vector cube_lines 2 = Inr [Num 0, Num 0, Num 1]
   \<and> read_body cube_lines reset \<noteq> Inl non_square_error
   \<and> snd (read_iterator cube_lines reset) = Inr ()"
proof -
  have h: "is_3x3 (voxel_shape reset) \<and> (0::nat) < 3 \<and> (1::nat) < 3 \<and> (0::nat) \<noteq> 1
      \<and> step_vector nonsquare_lines 0 = Inr [Num 1, Num (1 / 2), Num 0]
      \<and> [Num 1, Num (1 / 2), Num 0] ! 1 \<noteq> Num 0"
    by (simp add: is_3x3_reset nonsquare_step_vector)
  note t = non_diagonal_fails [of reset 0 1 nonsquare_lines "[Num 1, Num (1 / 2), Num 0]" 1 1 1]
  from t h have e: "\<exists>e. snd (read_iterator nonsquare_lines reset) = Inl e" by blast
  have g: "is_3x3 (voxel_shape reset)
      \<and> step_vector cube_lines 0 = Inr [Num 1, Num 0, Num 0]
      \<and> step_vector cube_lines 1 = Inr [Num 0, Num 1, Num 0]
      \<and> step_vector cube_lines 2 = Inr [Num 0, Num 0, Num 1]"
    using cube_step_vectors is_3x3_reset by (intro conjI)
  note u = non_diagonal_fails [of reset 0 0 cube_lines "[]" 1 1 1]
  from u g have p: "read_body cube_lines reset \<noteq> Inl non_square_error" by blast
  have s: "snd (read_iterator cube_lines reset) = Inr ()" by (simp add: cube_lines_read)
  have f: "snd (read_iterator nonsquare_lines reset)
       = Inl (Exc ValueError [Text ''Error reading file'', Text ''Non square voxel shape.'']
               (Some (Exc ValueError [Text ''Non square voxel shape.''] None)))"
    by (simp add: read_iterator_Inl [OF nonsquare_lines_reset])
  from h e f g p s show ?thesis by (intro conjI) blast+
qed

text \<open>
  The claim as it was stated does not hold for step vectors that are diagonal with an
  infinite entry: infinity times the zero of the mask is NaN, which is not zero, and
  the check rejects the cube.
\<close>

theorem infinite_step_counterexample:
  "step_vector inf_lines 0 = Inr [PInf, Num 0, Num 0]
   \<and> step_vector inf_lines 1 = Inr [Num 0, Num 1, Num 0]
   \<and> step_vector inf_lines 2 = Inr [Num 0, Num 0, Num 1]
   \<and> off_diagonal_any [[PInf, Num 0, Num 0], [Num 0, Num 1, Num 0], [Num 0, Num 0, Num 1]]
       = Inr True
   \<and> snd (read_iterator inf_lines reset)
       = Inl (Exc ValueError [Text ''Error reading file'', Text ''Non square voxel shape.'']
               (Some (Exc ValueError [Text ''Non square voxel shape.''] None)))"
proof -
  have "off_diagonal_any [[PInf, Num 0, Num 0], [Num 0, Num 1, Num 0], [Num 0, Num 0, Num 1]]
       = Inr True"
    by (simp add: off_diagonal_any_3x3 nonzero_def fmul_def)
  moreover have "snd (read_iterator inf_lines reset)
       = Inl (Exc ValueError [Text ''Error reading file'', Text ''Non square voxel shape.'']
               (Some (Exc ValueError [Text ''Non square voxel shape.''] None)))"
    by (simp add: read_iterator_Inl [OF inf_lines_reset])
  ultimately show ?thesis
    using inf_step_vectors by (intro conjI)
qed

text \<open>
  C9 (amended). On an object that holds no atoms, as after construction or \<^verbatim>\<open>reset\<close>, a
  successful read of a stream that declares the atom count \<open>n\<close> leaves \<open>max n 0\<close> atoms:
  for \<open>n \<ge> 0\<close> exactly the \<open>n\<close> lines after the six lines of the head are read as atoms,
  in the order of the file, and the payload starts after them; for \<open>n < 0\<close> no line is
  read as an atom, and the payload starts after the six lines of the head.
\<close>

theorem atoms_read_in_order:
  assumes "atoms r = []" and "snd (read_iterator it r) = Inr ()"
  shows "\<exists>n. first_int it 2 = Inr n
     \<and> atom_count (fst (read_iterator it r)) = nat n
     \<and> (\<forall>k<nat n. parse_atom (unit_conversion (fst (read_iterator it r))) (it ! (6 + k))
                      = Inr (atoms (fst (read_iterator it r)) ! k))
     \<and> map py_float (payload_tokens it n) = map Inr (data (voxels (fst (read_iterator it r))))"
proof -
  from read_iterator_success [OF assms(2)] obtain l1 l2 l3 a0 a1 a2 ls rest n n0 n1 n2
      w0 w1 w2 v0 v1 v2 org sc as arr where
    it: "it = l1 # l2 # l3 # a0 # a1 # a2 # ls @ rest" and
    n: "seq (getitem (py_split l3) 0) py_int = Inr n" and
    ls: "length ls = nat n" and
    as: "map (parse_atom ((unit_conversion r)
                  [0 := if n0 < 0 then Num 1 else BOHR_TO_ANGSTROM,
                   1 := if n1 < 0 then Num 1 else BOHR_TO_ANGSTROM,
                   2 := if n2 < 0 then Num 1 else BOHR_TO_ANGSTROM])) ls = map Inr as" and
    arr: "asarray_float (findall_nonspace (concat rest)) = Inr arr" and
    r': "fst (read_iterator it r) = \<lparr>filename = filename r, header = l1 @ l2, origin = org,
           voxel_shape = (voxel_shape r)[0 := v0, 1 := v1, 2 := v2],
           unit_conversion = (unit_conversion r)
                  [0 := if n0 < 0 then Num 1 else BOHR_TO_ANGSTROM,
                   1 := if n1 < 0 then Num 1 else BOHR_TO_ANGSTROM,
                   2 := if n2 < 0 then Num 1 else BOHR_TO_ANGSTROM],
           scale = sc, atoms = atoms r @ as,
           voxels = \<lparr>shape = [nat \<bar>n0\<bar>, nat \<bar>n1\<bar>, nat \<bar>n2\<bar>], data = arr\<rparr>\<rparr>"
    by (rule read_body_Inr)
  have fi: "first_int it 2 = Inr n"
    using it n by (simp only: first_int_head)
  have toks: "payload_tokens it n = findall_nonspace (concat rest)"
    using it ls by (simp only: payload_tokens_head)
  have m: "map py_float (payload_tokens it n) = map Inr (data (voxels (fst (read_iterator it r))))"
    using arr by (simp add: toks asarray_float_def mapM_Inr r')
  from as have "length ls = length as" by (rule map_eq_imp_length_eq)
  then have las: "length as = nat n" using ls by simp
  have cnt: "atom_count (fst (read_iterator it r)) = nat n"
    using assms(1) las by (simp add: atom_count_def r')
  have each: "parse_atom (unit_conversion (fst (read_iterator it r))) (it ! (6 + k))
                = Inr (atoms (fst (read_iterator it r)) ! k)" if "k < nat n" for k
  proof -
    have k: "k < length ls" using that ls by simp
    have "it ! (6 + k) = ls ! k"
      using k by (simp add: it eval_nat_numeral nth_append)
    with map_eq_nth [OF as k] show ?thesis
      using assms(1) by (simp add: r')
  qed
  have each': "\<forall>k<nat n. parse_atom (unit_conversion (fst (read_iterator it r))) (it ! (6 + k))
                      = Inr (atoms (fst (read_iterator it r)) ! k)"
    using each by blast
  show ?thesis
    apply (rule exI [of _ n])
    apply (intro conjI)
       apply (rule fi)
      apply (rule cnt)
     apply (rule each')
    apply (rule m)
    done
qed

theorem atoms_read_in_order_witness:
  "atoms reset = [] \<and> snd (read_iterator cube_lines reset) = Inr ()
   \<and> first_int cube_lines 2 = Inr 1
   \<and> atom_count (fst (read_iterator cube_lines reset)) = 1
   \<and> parse_atom (unit_conversion (fst (read_iterator cube_lines reset))) (cube_lines ! 6)
       = Inr (atoms (fst (read_iterator cube_lines reset)) ! 0)"
proof -
  have e: "atoms reset = []" by (simp add: reset_def)
  have h: "snd (read_iterator cube_lines reset) = Inr ()" by (simp add: cube_lines_read)
  from atoms_read_in_order [OF e h] obtain n where
    f: "first_int cube_lines 2 = Inr n" and
    c: "atom_count (fst (read_iterator cube_lines reset)) = nat n" and
    a: "\<forall>k<nat n. parse_atom (unit_conversion (fst (read_iterator cube_lines reset)))
                     (cube_lines ! (6 + k))
                      = Inr (atoms (fst (read_iterator cube_lines reset)) ! k)"
    by blast
  from f have n: "n = 1" by (simp add: cube_lines_first_int)
  from a [rule_format, of 0] have
    "parse_atom (unit_conversion (fst (read_iterator cube_lines reset))) (cube_lines ! 6)
       = Inr (atoms (fst (read_iterator cube_lines reset)) ! 0)"
    by (simp add: n)
  then show ?thesis
    using e h f c by (simp add: n)
qed

text \<open>
  The claim as it was stated does not hold for a negative count: \<^verbatim>\<open>range\<close> of a negative
  number is empty, the read succeeds and no atom is kept.
\<close>

theorem negative_atom_count_counterexample:
  "first_int negative_count_lines 2 = Inr (- 1)
   \<and> snd (read_iterator negative_count_lines reset) = Inr ()
   \<and> atoms (fst (read_iterator negative_count_lines reset)) = []
   \<and> int (length (atoms (fst (read_iterator negative_count_lines reset)))) \<noteq> - 1"
  by (simp add: negative_count_first_int read_iterator_Inr [OF negative_count_lines_reset]
        cube_record_def)

text \<open>
  C10. Constructing a \<^verbatim>\<open>Cubefile\<close> with a source that is false (\<^verbatim>\<open>None\<close>, the empty
  text, 0, the empty list) reads nothing: no exception is raised and the object is in
  its default state, although reading the empty text as a cube fails.
\<close>

theorem init_falsy_source:
  "init fs PNone = (reset, Inr ())
   \<and> init fs (PStr []) = (reset, Inr ())
   \<and> init fs (PInt 0) = (reset, Inr ())
   \<and> init fs (PList []) = (reset, Inr ())
   \<and> read_iterator (splitlines []) reset =
       (reset, Inl (Exc ValueError [Text ''Error reading file''] (Some (Exc StopIteration [] None))))"
  by (simp add: init_def splitlines_def read_iterator_def read_body_def read_header_def
        next_line_def)

end
